theory Spec2Isabelle
  imports Main "HOL-Library.Monad_Syntax"
begin

section \<open>Python values, exceptions and JSON documents\<close>

text \<open>
  The module \<^verbatim>\<open>app/update_result.py\<close> converts between a \<^verbatim>\<open>Result\<close> dataclass and a JSON
  file. The embedding keeps Python's dynamic typing: a field of a \<^verbatim>\<open>Result\<close> holds any
  Python value, and the annotations of the dataclass are a separate predicate.

  A \<^verbatim>\<open>datetime.datetime\<close> has the seven calendar fields and an optional time zone. The
  field \<open>tzinfo\<close> is \<open>None\<close> for a naive datetime and \<open>Some off\<close> for an aware one, \<open>off\<close>
  being its offset from UTC in microseconds (the resolution of \<^verbatim>\<open>timedelta\<close>).
\<close>

record datetime =
  year :: nat
  month :: nat
  day :: nat
  hour :: nat
  minute :: nat
  second :: nat
  microsecond :: nat
  tzinfo :: "int option"

text \<open>
  Python floats are only ever copied by this module, so their type is left abstract.
\<close>

typedecl float64

text \<open>
  The values that can reach the module: what \<^verbatim>\<open>json.load\<close> builds (\<^verbatim>\<open>None\<close>, booleans,
  numbers, strings, lists, dictionaries with string keys), datetimes, and \<open>PObject\<close> for
  any other object, which \<^verbatim>\<open>json\<close> cannot serialise. A dictionary is an association list
  with distinct keys in insertion order.
\<close>

datatype pyval =
    PNone
  | PBool bool
  | PInt int
  | PFloat float64
  | PStr string
  | PList "pyval list"
  | PDict "(string \<times> pyval) list"
  | PDatetime datetime
  | PObject nat

type_synonym pydict = "(string \<times> pyval) list"

datatype exception =
    JSONDecodeError
  | AttributeError
  | KeyError
  | TypeError
  | ValueError

text \<open>
  A JSON document as \<^verbatim>\<open>json\<close> sees it. An object is the list of its members as written, so
  a key may occur more than once.
\<close>

datatype json =
    JNull
  | JBool bool
  | JInt int
  | JFloat float64
  | JStr string
  | JArr "json list"
  | JObj "(string \<times> json) list"

text \<open>
  The contents of a result file either are one such document or are not JSON. The
  decoder works from left to right and reports a syntax error where it meets it: by then
  it has built, and handed to its hook, the values that are complete before that point.
  \<open>Malformed\<close> carries those values, in the order of the text.
\<close>

datatype file_text = Malformed "json list" | Wellformed json

section \<open>Dictionaries\<close>

text \<open>\<^verbatim>\<open>d[k] = v\<close>: an existing key keeps its position, a new key goes last.\<close>

primrec dict_setitem :: "(string \<times> 'v) list \<Rightarrow> string \<Rightarrow> 'v \<Rightarrow> (string \<times> 'v) list" where
  "dict_setitem [] k v = [(k, v)]"
| "dict_setitem (p # d) k v = (if fst p = k then (k, v) # d else p # dict_setitem d k v)"

text \<open>\<^verbatim>\<open>d[k]\<close> raises \<^verbatim>\<open>KeyError\<close> on a missing key.\<close>

definition dict_getitem :: "(string \<times> 'v) list \<Rightarrow> string \<Rightarrow> exception + 'v" where
  "dict_getitem d k = (case map_of d k of None \<Rightarrow> Inl KeyError | Some v \<Rightarrow> Inr v)"

text \<open>\<^verbatim>\<open>del d[k]\<close> raises \<^verbatim>\<open>KeyError\<close> on a missing key.\<close>

definition dict_delitem :: "(string \<times> 'v) list \<Rightarrow> string \<Rightarrow> exception + (string \<times> 'v) list" where
  "dict_delitem d k =
     (case map_of d k of
        None \<Rightarrow> Inl KeyError
      | Some _ \<Rightarrow> Inr (filter (\<lambda>p. fst p \<noteq> k) d))"

text \<open>\<^verbatim>\<open>d.get(k, default)\<close> never raises.\<close>

definition dict_get :: "(string \<times> 'v) list \<Rightarrow> string \<Rightarrow> 'v \<Rightarrow> 'v" where
  "dict_get d k dflt = (case map_of d k of None \<Rightarrow> dflt | Some v \<Rightarrow> v)"

text \<open>
  \<^verbatim>\<open>dict(pairs)\<close>, which \<^verbatim>\<open>json\<close> applies to the members of an object: the pairs are
  inserted from left to right, so the last value of a repeated key wins.
\<close>

definition dict_of_pairs :: "(string \<times> 'v) list \<Rightarrow> (string \<times> 'v) list" where
  "dict_of_pairs ps = foldl (\<lambda>d p. dict_setitem d (fst p) (snd p)) [] ps"

section \<open>The dataclass\<close>

record result =
  success :: pyval
  error :: pyval
  timestamp :: pyval
  version_at_end :: pyval

text \<open>
  The annotations of the dataclass (\<^verbatim>\<open>bool\<close>, \<^verbatim>\<open>str\<close>, \<^verbatim>\<open>datetime.datetime\<close>, \<^verbatim>\<open>str\<close>). Python
  does not check them.
\<close>

definition is_bool :: "pyval \<Rightarrow> bool" where
  "is_bool v = (case v of PBool _ \<Rightarrow> True | _ \<Rightarrow> False)"

definition is_str :: "pyval \<Rightarrow> bool" where
  "is_str v = (case v of PStr _ \<Rightarrow> True | _ \<Rightarrow> False)"

definition is_datetime :: "pyval \<Rightarrow> bool" where
  "is_datetime v = (case v of PDatetime _ \<Rightarrow> True | _ \<Rightarrow> False)"

definition well_typed :: "result \<Rightarrow> bool" where
  "well_typed r =
     (is_bool (success r) \<and> is_str (error r) \<and> is_datetime (timestamp r)
      \<and> is_str (version_at_end r))"

text \<open>
  \<^verbatim>\<open>datetime.datetime.utcfromtimestamp(0)\<close>: the naive datetime of the UTC wall clock at
  the Unix epoch.
\<close>

definition utcfromtimestamp0 :: datetime where
  "utcfromtimestamp0 =
     \<lparr>year = 1970, month = 1, day = 1, hour = 0, minute = 0, second = 0,
      microsecond = 0, tzinfo = None\<rparr>"

section \<open>Decoding\<close>

text \<open>
  \<^verbatim>\<open>_ResultDecoder._decode_object\<close>, the \<^verbatim>\<open>object_hook\<close> of the decoder. The parameter
  \<open>parse\<close> stands for \<^verbatim>\<open>iso8601.parse\<close>; whatever it raises leaves the hook unchanged.
\<close>

definition decode_object :: "(pyval \<Rightarrow> exception + datetime) \<Rightarrow> pydict \<Rightarrow> exception + pyval" where
  "decode_object parse obj =
     (case map_of obj ''timestamp'' of
        None \<Rightarrow> Inr (PDict obj)
      | Some ts \<Rightarrow>
          (case parse ts of
             Inl e \<Rightarrow> Inl e
           | Inr t \<Rightarrow> Inr (PDict (dict_setitem obj ''timestamp'' (PDatetime t)))))"

text \<open>
  \<^verbatim>\<open>json\<close>'s decoder with an \<^verbatim>\<open>object_hook\<close>: values are built from left to right and from
  the inside out; every JSON object, at any depth, becomes a dictionary that is handed
  to the hook, whose return value replaces it. The first exception ends the decoding.
\<close>

fun decode_value :: "(pydict \<Rightarrow> exception + pyval) \<Rightarrow> json \<Rightarrow> exception + pyval"
  and decode_array :: "(pydict \<Rightarrow> exception + pyval) \<Rightarrow> json list \<Rightarrow> exception + pyval list"
  and decode_members ::
    "(pydict \<Rightarrow> exception + pyval) \<Rightarrow> (string \<times> json) list \<Rightarrow> exception + pydict"
where
  "decode_value hook JNull = Inr PNone"
| "decode_value hook (JBool b) = Inr (PBool b)"
| "decode_value hook (JInt i) = Inr (PInt i)"
| "decode_value hook (JFloat x) = Inr (PFloat x)"
| "decode_value hook (JStr s) = Inr (PStr s)"
| "decode_value hook (JArr js) =
     (case decode_array hook js of Inl e \<Rightarrow> Inl e | Inr vs \<Rightarrow> Inr (PList vs))"
| "decode_value hook (JObj ms) =
     (case decode_members hook ms of Inl e \<Rightarrow> Inl e | Inr ps \<Rightarrow> hook (dict_of_pairs ps))"
| "decode_array hook [] = Inr []"
| "decode_array hook (j # js) =
     (case decode_value hook j of
        Inl e \<Rightarrow> Inl e
      | Inr v \<Rightarrow> (case decode_array hook js of Inl e \<Rightarrow> Inl e | Inr vs \<Rightarrow> Inr (v # vs)))"
| "decode_members hook [] = Inr []"
| "decode_members hook (m # ms) =
     (case decode_value hook (snd m) of
        Inl e \<Rightarrow> Inl e
      | Inr v \<Rightarrow>
          (case decode_members hook ms of
             Inl e \<Rightarrow> Inl e
           | Inr ps \<Rightarrow> Inr ((fst m, v) # ps)))"

text \<open>
  \<^verbatim>\<open>json.load(result_file, cls=_ResultDecoder)\<close>. On a text that is not JSON it raises
  \<^verbatim>\<open>JSONDecodeError\<close>, unless the hook has raised before the syntax error is reached.
\<close>

definition json_load :: "(pyval \<Rightarrow> exception + datetime) \<Rightarrow> file_text \<Rightarrow> exception + pyval" where
  "json_load parse f =
     (case f of
        Malformed js \<Rightarrow>
          (case decode_array (decode_object parse) js of
             Inl e \<Rightarrow> Inl e
           | Inr _ \<Rightarrow> Inl JSONDecodeError)
      | Wellformed j \<Rightarrow> decode_value (decode_object parse) j)"

text \<open>
  \<^verbatim>\<open>read\<close>. Only a dictionary has the method \<^verbatim>\<open>get\<close>: on any other decoded value the
  attribute lookup raises \<^verbatim>\<open>AttributeError\<close>.
\<close>

definition read :: "(pyval \<Rightarrow> exception + datetime) \<Rightarrow> file_text \<Rightarrow> exception + result" where
  "read parse result_file =
     (case json_load parse result_file of
        Inl e \<Rightarrow> Inl e
      | Inr raw_result \<Rightarrow>
          (case raw_result of
             PDict d \<Rightarrow>
               Inr \<lparr>success = dict_get d ''success'' (PBool False),
                    error = dict_get d ''error'' (PStr []),
                    timestamp = dict_get d ''timestamp'' (PDatetime utcfromtimestamp0),
                    version_at_end = dict_get d ''versionAtEnd'' (PStr [])\<rparr>
           | _ \<Rightarrow> Inl AttributeError))"

section \<open>Encoding\<close>

text \<open>
  \<^verbatim>\<open>_ResultEncoder.default\<close>. The parameter \<open>to_string\<close> stands for \<^verbatim>\<open>iso8601.to_string\<close>.
\<close>

definition ResultEncoder_default :: "(datetime \<Rightarrow> string) \<Rightarrow> pyval \<Rightarrow> pyval" where
  "ResultEncoder_default to_string obj =
     (case obj of PDatetime t \<Rightarrow> PStr (to_string t) | _ \<Rightarrow> obj)"

text \<open>
  What \<^verbatim>\<open>json\<close>'s encoder does with an object it cannot serialise: it calls \<^verbatim>\<open>default\<close> and
  encodes the value returned. \<^verbatim>\<open>_ResultEncoder.default\<close> returns a string for a datetime;
  any other unsupported object comes back as it is, which the encoder reports as a
  circular reference, a \<^verbatim>\<open>ValueError\<close>.
\<close>

definition encode_unsupported :: "(datetime \<Rightarrow> string) \<Rightarrow> pyval \<Rightarrow> exception + json" where
  "encode_unsupported to_string obj =
     (case ResultEncoder_default to_string obj of
        PStr s \<Rightarrow> Inr (JStr s)
      | _ \<Rightarrow> Inl ValueError)"

text \<open>
  \<^verbatim>\<open>json\<close>'s encoder with \<^verbatim>\<open>cls=_ResultEncoder\<close>. The members of an object are written in
  the order of the dictionary.
\<close>

fun encode_value :: "(datetime \<Rightarrow> string) \<Rightarrow> pyval \<Rightarrow> exception + json"
  and encode_list :: "(datetime \<Rightarrow> string) \<Rightarrow> pyval list \<Rightarrow> exception + json list"
  and encode_items ::
    "(datetime \<Rightarrow> string) \<Rightarrow> pydict \<Rightarrow> exception + (string \<times> json) list"
where
  "encode_value ts PNone = Inr JNull"
| "encode_value ts (PBool b) = Inr (JBool b)"
| "encode_value ts (PInt i) = Inr (JInt i)"
| "encode_value ts (PFloat x) = Inr (JFloat x)"
| "encode_value ts (PStr s) = Inr (JStr s)"
| "encode_value ts (PList vs) =
     (case encode_list ts vs of Inl e \<Rightarrow> Inl e | Inr js \<Rightarrow> Inr (JArr js))"
| "encode_value ts (PDict d) =
     (case encode_items ts d of Inl e \<Rightarrow> Inl e | Inr ms \<Rightarrow> Inr (JObj ms))"
| "encode_value ts (PDatetime t) = encode_unsupported ts (PDatetime t)"
| "encode_value ts (PObject n) = encode_unsupported ts (PObject n)"
| "encode_list ts [] = Inr []"
| "encode_list ts (v # vs) =
     (case encode_value ts v of
        Inl e \<Rightarrow> Inl e
      | Inr j \<Rightarrow> (case encode_list ts vs of Inl e \<Rightarrow> Inl e | Inr js \<Rightarrow> Inr (j # js)))"
| "encode_items ts [] = Inr []"
| "encode_items ts (p # d) =
     (case encode_value ts (snd p) of
        Inl e \<Rightarrow> Inl e
      | Inr j \<Rightarrow>
          (case encode_items ts d of
             Inl e \<Rightarrow> Inl e
           | Inr ms \<Rightarrow> Inr ((fst p, j) # ms)))"

text \<open>\<^verbatim>\<open>json.dump(result_dict, result_file, cls=_ResultEncoder)\<close>: the document written.\<close>

definition json_dump :: "(datetime \<Rightarrow> string) \<Rightarrow> pyval \<Rightarrow> exception + json" where
  "json_dump to_string obj = encode_value to_string obj"

text \<open>\<^verbatim>\<open>dataclasses.asdict\<close>: a new dictionary of the fields, in the order of declaration.\<close>

definition asdict :: "result \<Rightarrow> pydict" where
  "asdict r =
     [(''success'', success r), (''error'', error r), (''timestamp'', timestamp r),
      (''version_at_end'', version_at_end r)]"

text \<open>
  \<^verbatim>\<open>write\<close>, as a function from the record to the document written to the file (\<open>write\<close>
  is a keyword of Isabelle, hence the longer name).
\<close>

definition write_result :: "(datetime \<Rightarrow> string) \<Rightarrow> result \<Rightarrow> exception + json" where
  "write_result to_string r =
     (let result_dict = asdict r in
      case dict_getitem result_dict ''version_at_end'' of
        Inl e \<Rightarrow> Inl e
      | Inr v \<Rightarrow>
          (let result_dict = dict_setitem result_dict ''versionAtEnd'' v in
           case dict_delitem result_dict ''version_at_end'' of
             Inl e \<Rightarrow> Inl e
           | Inr result_dict \<Rightarrow> json_dump to_string (PDict result_dict)))"

section \<open>Writing in a store of objects\<close>

text \<open>
  \<^verbatim>\<open>write\<close> assigns to and deletes from a dictionary. To see which object that changes,
  the mutable objects live in a store, a reference being an index into it: the record
  passed to \<^verbatim>\<open>write\<close> is one object, the dictionary that \<^verbatim>\<open>asdict\<close> allocates another.
\<close>

datatype object = ResultObject result | DictObject pydict

type_synonym store = "object list"

text \<open>An in-place operation on the dictionary behind a reference.\<close>

definition update_dict ::
  "nat \<Rightarrow> (pydict \<Rightarrow> exception + pydict) \<Rightarrow> store \<Rightarrow> exception + store" where
  "update_dict ref f st =
     (if ref < length st then
        (case st ! ref of
           DictObject d \<Rightarrow>
             (case f d of Inl e \<Rightarrow> Inl e | Inr d' \<Rightarrow> Inr (st[ref := DictObject d']))
         | ResultObject _ \<Rightarrow> Inl TypeError)
      else Inl TypeError)"

text \<open>
  \<^verbatim>\<open>write\<close> on a reference to the record: the outcome and the store afterwards.
  \<^verbatim>\<open>asdict\<close> raises \<^verbatim>\<open>TypeError\<close> on anything that is not a dataclass instance. Python
  has no reference to nothing; an index outside the store is given the same outcome.
\<close>

definition write_store ::
  "(datetime \<Rightarrow> string) \<Rightarrow> nat \<Rightarrow> store \<Rightarrow> (exception + json) \<times> store" where
  "write_store to_string a st =
     (if a < length st then
        (case st ! a of
           DictObject _ \<Rightarrow> (Inl TypeError, st)
         | ResultObject r \<Rightarrow>
             (let result_dict = length st;
                  st1 = st @ [DictObject (asdict r)]
              in case update_dict result_dict
                        (\<lambda>d. case dict_getitem d ''version_at_end'' of
                               Inl e \<Rightarrow> Inl e
                             | Inr v \<Rightarrow> Inr (dict_setitem d ''versionAtEnd'' v)) st1 of
                   Inl e \<Rightarrow> (Inl e, st1)
                 | Inr st2 \<Rightarrow>
                     (case update_dict result_dict
                             (\<lambda>d. dict_delitem d ''version_at_end'') st2 of
                        Inl e \<Rightarrow> (Inl e, st2)
                      | Inr st3 \<Rightarrow>
                          (case st3 ! result_dict of
                             DictObject d \<Rightarrow> (json_dump to_string (PDict d), st3)
                           | ResultObject _ \<Rightarrow> (Inl TypeError, st3)))))
      else (Inl TypeError, st))"

section \<open>The timestamp format\<close>

text \<open>
  The module \<^verbatim>\<open>iso8601\<close> of the repository, whose functions \<^verbatim>\<open>parse\<close> and \<^verbatim>\<open>to_string\<close>
  the code above calls, is not among the sources. The functions \<open>read\<close> and
  \<open>write_result\<close> take them as parameters; where a property depends on the format itself,
  they are instantiated with the two functions of this section, which follow the
  specification: a timestamp is ISO-8601 basic, \<^verbatim>\<open>2021-02-10T085735Z\<close>, that is a date
  with hyphens, \<^verbatim>\<open>T\<close>, a time of day without separators, and \<^verbatim>\<open>Z\<close> for UTC, with whole
  seconds only. The digits and the calendar below are the groundwork for them.
\<close>

definition is_digit :: "char \<Rightarrow> bool" where
  "is_digit c = (c \<in> set ''0123456789'')"

text \<open>The value of a digit is its position in the string of the ten digits.\<close>

definition digit_val :: "char \<Rightarrow> nat" where
  "digit_val c = length (takeWhile (\<lambda>x. x \<noteq> c) ''0123456789'')"

definition digit_char :: "nat \<Rightarrow> char" where
  "digit_char n = ''0123456789'' ! n"

text \<open>The last \<open>w\<close> decimal digits of \<open>n\<close>, with leading zeros.\<close>

fun zero_padded :: "nat \<Rightarrow> nat \<Rightarrow> string" where
  "zero_padded 0 n = []"
| "zero_padded (Suc w) n = zero_padded w (n div 10) @ [digit_char (n mod 10)]"

definition number :: "string \<Rightarrow> nat" where
  "number s = foldl (\<lambda>n c. 10 * n + digit_val c) 0 s"

text \<open>Exactly \<open>w\<close> digits at the head of a string, and one given character.\<close>

definition take_number :: "nat \<Rightarrow> string \<Rightarrow> (nat \<times> string) option" where
  "take_number w s =
     (if w \<le> length s \<and> list_all is_digit (take w s)
      then Some (number (take w s), drop w s) else None)"

definition take_char :: "char \<Rightarrow> string \<Rightarrow> string option" where
  "take_char c s = (case s of [] \<Rightarrow> None | x # xs \<Rightarrow> if x = c then Some xs else None)"

definition is_leap :: "nat \<Rightarrow> bool" where
  "is_leap y = (y mod 4 = 0 \<and> (if y mod 100 = 0 then y mod 400 = 0 else True))"

definition days_in_month :: "nat \<Rightarrow> nat \<Rightarrow> nat" where
  "days_in_month y m =
     (if m = 2 then (if is_leap y then 29 else 28)
      else if m = 4 \<or> m = 6 \<or> m = 9 \<or> m = 11 then 30 else 31)"

text \<open>The values that the constructor of \<^verbatim>\<open>datetime.datetime\<close> accepts.\<close>

definition valid_datetime :: "datetime \<Rightarrow> bool" where
  "valid_datetime t =
     (1 \<le> year t \<and> year t \<le> 9999 \<and> 1 \<le> month t \<and> month t \<le> 12
      \<and> 1 \<le> day t \<and> day t \<le> days_in_month (year t) (month t)
      \<and> hour t < 24 \<and> minute t < 60 \<and> second t < 60 \<and> microsecond t < 1000000
      \<and> (case tzinfo t of None \<Rightarrow> True | Some off \<Rightarrow> \<bar>off\<bar> < 86400000000))"

text \<open>
  Modelled from the spec: \<^verbatim>\<open>iso8601.to_string\<close>, which is not among the sources. It
  writes the calendar fields of the datetime in the format \<^verbatim>\<open>YYYY-MM-DDTHHMMSSZ\<close> of the
  specification; the microseconds have no place in it.
\<close>

definition iso8601_to_string :: "datetime \<Rightarrow> string" where
  "iso8601_to_string t =
     zero_padded 4 (year t) @ ''-'' @ zero_padded 2 (month t) @ ''-''
       @ zero_padded 2 (day t) @ ''T'' @ zero_padded 2 (hour t)
       @ zero_padded 2 (minute t) @ zero_padded 2 (second t) @ ''Z''"

text \<open>
  Modelled from the spec: the reading of a string in the format \<^verbatim>\<open>YYYY-MM-DDTHHMMSSZ\<close>,
  the first step of \<^verbatim>\<open>iso8601.parse\<close>. The fields are taken from left to right and
  nothing may follow the \<^verbatim>\<open>Z\<close>.
\<close>

definition iso8601_fields :: "string \<Rightarrow> datetime option" where
  "iso8601_fields s0 =
     do {
       (y, s1) \<leftarrow> take_number 4 s0;
       s2 \<leftarrow> take_char CHR ''-'' s1;
       (m, s3) \<leftarrow> take_number 2 s2;
       s4 \<leftarrow> take_char CHR ''-'' s3;
       (d, s5) \<leftarrow> take_number 2 s4;
       s6 \<leftarrow> take_char CHR ''T'' s5;
       (h, s7) \<leftarrow> take_number 2 s6;
       (mi, s8) \<leftarrow> take_number 2 s7;
       (sec, s9) \<leftarrow> take_number 2 s8;
       s10 \<leftarrow> take_char CHR ''Z'' s9;
       if s10 = [] then
         Some \<lparr>year = y, month = m, day = d, hour = h, minute = mi, second = sec,
               microsecond = 0, tzinfo = Some 0\<rparr>
       else None
     }"

text \<open>
  Modelled from the spec: \<^verbatim>\<open>iso8601.parse\<close>, which is not among the sources. It raises
  \<^verbatim>\<open>TypeError\<close> for an argument that is not a string and \<^verbatim>\<open>ValueError\<close> for a string that
  is not a timestamp of the format or names no calendar date or time of day; otherwise
  it returns the aware datetime in UTC.
\<close>

definition iso8601_parse :: "pyval \<Rightarrow> exception + datetime" where
  "iso8601_parse v =
     (case v of
        PStr s \<Rightarrow>
          (case iso8601_fields s of
             None \<Rightarrow> Inl ValueError
           | Some t \<Rightarrow> if valid_datetime t then Inr t else Inl ValueError)
      | _ \<Rightarrow> Inl TypeError)"

section \<open>Observing documents, and the example of the docstring\<close>

text \<open>
  The keys of a JSON object in the order written, and the value a reader of the document
  finds under a key (the last one, should the key be repeated).
\<close>

definition json_keys :: "json \<Rightarrow> string list" where
  "json_keys j = (case j of JObj ms \<Rightarrow> map fst ms | _ \<Rightarrow> [])"

definition json_member :: "json \<Rightarrow> string \<Rightarrow> json option" where
  "json_member j k = (case j of JObj ms \<Rightarrow> map_of (rev ms) k | _ \<Rightarrow> None)"

text \<open>The file shown in the docstring of \<^verbatim>\<open>read\<close>, and the record it stands for.\<close>

definition example_document :: json where
  "example_document =
     JObj [(''success'', JBool True), (''error'', JStr []),
           (''timestamp'', JStr ''2021-02-10T085735Z''), (''versionAtEnd'', JStr ''1.4.2'')]"

definition example_timestamp :: datetime where
  "example_timestamp =
     \<lparr>year = 2021, month = 2, day = 10, hour = 8, minute = 57, second = 35,
      microsecond = 0, tzinfo = Some 0\<rparr>"

definition example_record :: result where
  "example_record =
     \<lparr>success = PBool True, error = PStr [], timestamp = PDatetime example_timestamp,
      version_at_end = PStr ''1.4.2''\<rparr>"

text \<open>A record whose timestamp has a fraction of a second.\<close>

definition subsecond_record :: result where
  "subsecond_record =
     \<lparr>success = PBool True, error = PStr [],
      timestamp = PDatetime (example_timestamp\<lparr>microsecond := 250000\<rparr>),
      version_at_end = PStr ''1.4.2''\<rparr>"

section \<open>Round trips and the shape of a document\<close>

text \<open>Writing a record and reading the file back; reading a file and writing the record.\<close>

definition write_then_read ::
  "(pyval \<Rightarrow> exception + datetime) \<Rightarrow> (datetime \<Rightarrow> string) \<Rightarrow> result \<Rightarrow> exception + result" where
  "write_then_read parse to_string r =
     (case write_result to_string r of
        Inl e \<Rightarrow> Inl e
      | Inr j \<Rightarrow> read parse (Wellformed j))"

definition read_then_write ::
  "(pyval \<Rightarrow> exception + datetime) \<Rightarrow> (datetime \<Rightarrow> string) \<Rightarrow> file_text \<Rightarrow> exception + json" where
  "read_then_write parse to_string f =
     (case read parse f of
        Inl e \<Rightarrow> Inl e
      | Inr r \<Rightarrow> write_result to_string r)"

text \<open>The keys that \<^verbatim>\<open>read\<close> looks up.\<close>

definition known_keys :: "string list" where
  "known_keys = [''success'', ''error'', ''timestamp'', ''versionAtEnd'']"

definition is_object :: "json \<Rightarrow> bool" where
  "is_object j = (case j of JObj _ \<Rightarrow> True | _ \<Rightarrow> False)"

text \<open>
  No object of the document, at any depth, has the key \<^verbatim>\<open>timestamp\<close>: the hook then never
  calls the parser.
\<close>

fun no_timestamp_key :: "json \<Rightarrow> bool"
  and no_timestamp_key_array :: "json list \<Rightarrow> bool"
  and no_timestamp_key_members :: "(string \<times> json) list \<Rightarrow> bool"
where
  "no_timestamp_key (JArr js) = no_timestamp_key_array js"
| "no_timestamp_key (JObj ms) = no_timestamp_key_members ms"
| "no_timestamp_key JNull = True"
| "no_timestamp_key (JBool b) = True"
| "no_timestamp_key (JInt i) = True"
| "no_timestamp_key (JFloat x) = True"
| "no_timestamp_key (JStr s) = True"
| "no_timestamp_key_array [] = True"
| "no_timestamp_key_array (j # js) = (no_timestamp_key j \<and> no_timestamp_key_array js)"
| "no_timestamp_key_members [] = True"
| "no_timestamp_key_members (m # ms) =
     (fst m \<noteq> ''timestamp'' \<and> no_timestamp_key (snd m) \<and> no_timestamp_key_members ms)"

text \<open>
  The document holds a timestamp that the parser rejects: some object in it, at any
  depth, has a member \<^verbatim>\<open>timestamp\<close> (the last one, if the key is repeated) whose decoded
  value makes \<open>parse\<close> raise.
\<close>

inductive unparsable :: "(pyval \<Rightarrow> exception + datetime) \<Rightarrow> json \<Rightarrow> bool"
  for parse :: "pyval \<Rightarrow> exception + datetime"
where
  in_array: "j \<in> set js \<Longrightarrow> unparsable parse j \<Longrightarrow> unparsable parse (JArr js)"
| in_member: "m \<in> set ms \<Longrightarrow> unparsable parse (snd m) \<Longrightarrow> unparsable parse (JObj ms)"
| own_timestamp:
    "map_of (rev ms) ''timestamp'' = Some jt
     \<Longrightarrow> decode_value (decode_object parse) jt = Inr v
     \<Longrightarrow> parse v = Inl e
     \<Longrightarrow> unparsable parse (JObj ms)"

text \<open>
  The exception that the decoder raises on a document: that of the first timestamp, in
  the order in which the decoder meets them, that the parser rejects. Values are decoded
  from left to right and an object's own timestamp comes after its members, so
  everything before the rejected timestamp has been decoded without an exception; \<open>e\<close>
  is what \<open>parse\<close> itself returned for the decoded value of that timestamp.
\<close>

inductive rejects :: "(pyval \<Rightarrow> exception + datetime) \<Rightarrow> json \<Rightarrow> exception \<Rightarrow> bool"
  for parse :: "pyval \<Rightarrow> exception + datetime"
where
  element:
    "js = before @ j # rest
     \<Longrightarrow> list_all (\<lambda>j'. \<not> unparsable parse j') before
     \<Longrightarrow> rejects parse j e
     \<Longrightarrow> rejects parse (JArr js) e"
| member:
    "ms = before @ m # rest
     \<Longrightarrow> list_all (\<lambda>m'. \<not> unparsable parse (snd m')) before
     \<Longrightarrow> rejects parse (snd m) e
     \<Longrightarrow> rejects parse (JObj ms) e"
| timestamp_of_object:
    "list_all (\<lambda>m. \<not> unparsable parse (snd m)) ms
     \<Longrightarrow> map_of (rev ms) ''timestamp'' = Some jt
     \<Longrightarrow> decode_value (decode_object parse) jt = Inr v
     \<Longrightarrow> parse v = Inl e
     \<Longrightarrow> rejects parse (JObj ms) e"

section \<open>Evaluating the timestamp format\<close>

lemma zero_padded_numeral:
  "zero_padded (numeral k) n = zero_padded (pred_numeral k) (n div 10) @ [digit_char (n mod 10)]"
proof -
  have "numeral k = Suc (pred_numeral k)" by (rule numeral_eq_Suc)
  then show ?thesis by (simp only: zero_padded.simps)
qed

lemma zero_padded_Suc0: "zero_padded (Suc 0) n = [digit_char (n mod 10)]"
  by (simp only: zero_padded.simps append_Nil)

lemmas timestamp_eval =
  iso8601_fields_def take_number_def take_char_def number_def is_digit_def digit_val_def
  valid_datetime_def days_in_month_def is_leap_def

lemma parse_example:
  "iso8601_parse (PStr ''2021-02-10T085735Z'') = Inr example_timestamp"
proof -
  have "iso8601_fields ''2021-02-10T085735Z'' = Some example_timestamp"
    by (simp add: timestamp_eval example_timestamp_def)
  moreover have "valid_datetime example_timestamp"
    by (simp add: timestamp_eval example_timestamp_def)
  ultimately show ?thesis by (simp add: iso8601_parse_def)
qed

lemma to_string_example: "iso8601_to_string example_timestamp = ''2021-02-10T085735Z''"
  by (simp add: iso8601_to_string_def example_timestamp_def digit_char_def
      zero_padded_numeral zero_padded_Suc0)

section \<open>What \<open>write\<close> hands to the encoder\<close>

lemma write_result_dump:
  "write_result ts r =
     json_dump ts (PDict [(''success'', success r), (''error'', error r),
                          (''timestamp'', timestamp r), (''versionAtEnd'', version_at_end r)])"
  by (simp add: write_result_def asdict_def dict_getitem_def dict_delitem_def)

section \<open>Dictionaries built by the decoder\<close>

text \<open>
  Looking a key up in the dictionary of an object finds the value of the last member with
  that key; the decoded members correspond one to one to the members written.
\<close>

lemma map_of_dict_setitem: "map_of (dict_setitem d k v) = (map_of d)(k \<mapsto> v)"
  by (induction d) auto

lemma map_of_foldl_setitem:
  "map_of (foldl (\<lambda>d p. dict_setitem d (fst p) (snd p)) d ps) = map_of d ++ map_of (rev ps)"
proof (induction ps arbitrary: d)
  case Nil
  show ?case by simp
next
  case (Cons p ps)
  have "map_of (foldl (\<lambda>d p. dict_setitem d (fst p) (snd p)) (dict_setitem d (fst p) (snd p)) ps)
        = map_of (dict_setitem d (fst p) (snd p)) ++ map_of (rev ps)"
    by (rule Cons.IH)
  also have "\<dots> = map_of d ++ map_of (rev (p # ps))"
    by (rule ext) (simp add: map_of_dict_setitem map_add_def split: option.splits)
  finally show ?case by simp
qed

lemma map_of_dict_of_pairs: "map_of (dict_of_pairs ps) = map_of (rev ps)"
  by (simp add: dict_of_pairs_def map_of_foldl_setitem)

lemma decode_members_Inr:
  "decode_members hook ms = Inr ps \<Longrightarrow>
   list_all2 (\<lambda>m p. fst p = fst m \<and> decode_value hook (snd m) = Inr (snd p)) ms ps"
  by (induction ms arbitrary: ps) (auto split: sum.splits)

lemma decode_members_Inl:
  "decode_members hook ms = Inl e \<Longrightarrow> \<exists>m\<in>set ms. decode_value hook (snd m) = Inl e"
  by (induction ms) (auto split: sum.splits)

lemma decode_members_total:
  "list_all (\<lambda>m. \<exists>v. decode_value hook (snd m) = Inr v) ms \<Longrightarrow> \<exists>ps. decode_members hook ms = Inr ps"
  by (induction ms) (auto split: sum.splits)

lemma decode_array_Inl:
  "decode_array hook js = Inl e \<Longrightarrow> \<exists>j\<in>set js. decode_value hook j = Inl e"
  by (induction js) (auto split: sum.splits)

lemma decode_array_total:
  "list_all (\<lambda>j. \<exists>v. decode_value hook j = Inr v) js \<Longrightarrow> \<exists>vs. decode_array hook js = Inr vs"
  by (induction js) (auto split: sum.splits)

lemma decoded_member_None:
  assumes "list_all2 (\<lambda>m p. fst p = fst m \<and> decode_value hook (snd m) = Inr (snd p)) ms ps"
  shows "map_of (rev ps) k = None \<longleftrightarrow> map_of (rev ms) k = None"
  using assms
  by (induction rule: list_all2_induct) (auto simp: map_add_def split: option.splits)

lemma decoded_member_Some:
  assumes "list_all2 (\<lambda>m p. fst p = fst m \<and> decode_value hook (snd m) = Inr (snd p)) ms ps"
    and "map_of (rev ms) k = Some j"
  shows "\<exists>v. decode_value hook j = Inr v \<and> map_of (rev ps) k = Some v"
  using assms
proof (induction rule: list_all2_induct)
  case Nil
  then show ?case by simp
next
  case (Cons m ms p ps)
  show ?case
  proof (cases "map_of (rev ms) k")
    case None
    then have "map_of (rev ps) k = None"
      using decoded_member_None [OF Cons.hyps(2)] by simp
    with None Cons.prems Cons.hyps(1) show ?thesis
      by (cases m; cases p) (auto simp: map_add_def split: if_splits)
  next
    case (Some j')
    with Cons.prems have "j' = j" by (simp add: map_add_def)
    with Some Cons.IH obtain v where "decode_value hook j = Inr v" "map_of (rev ps) k = Some v"
      by auto
    then show ?thesis by (auto simp: map_add_def)
  qed
qed

lemma read_object:
  "read parse (Wellformed (JObj ms)) =
     (case decode_members (decode_object parse) ms of
        Inl e \<Rightarrow> Inl e
      | Inr ps \<Rightarrow>
          (case map_of (rev ps) ''timestamp'' of
             None \<Rightarrow>
               Inr \<lparr>success = dict_get (rev ps) ''success'' (PBool False),
                    error = dict_get (rev ps) ''error'' (PStr []),
                    timestamp = PDatetime utcfromtimestamp0,
                    version_at_end = dict_get (rev ps) ''versionAtEnd'' (PStr [])\<rparr>
           | Some ts \<Rightarrow>
               (case parse ts of
                  Inl e \<Rightarrow> Inl e
                | Inr t \<Rightarrow>
                    Inr \<lparr>success = dict_get (rev ps) ''success'' (PBool False),
                         error = dict_get (rev ps) ''error'' (PStr []),
                         timestamp = PDatetime t,
                         version_at_end = dict_get (rev ps) ''versionAtEnd'' (PStr [])\<rparr>)))"
  by (simp add: read_def json_load_def decode_object_def dict_get_def map_of_dict_of_pairs
      map_of_dict_setitem split: sum.splits option.splits)

section \<open>The examples of the specification\<close>

text \<open>
  C5: reading the file of the docstring,
  \<^verbatim>\<open>{"success": true, "error": "", "timestamp": "2021-02-10T085735Z", "versionAtEnd": "1.4.2"}\<close>,
  gives the record with \<open>success = True\<close>, the empty error message, the timestamp
  2021-02-10 08:57:35 in UTC and the version \<open>1.4.2\<close>.
\<close>

theorem read_example:
  "read iso8601_parse
     (Wellformed
        (JObj [(''success'', JBool True), (''error'', JStr []),
               (''timestamp'', JStr ''2021-02-10T085735Z''),
               (''versionAtEnd'', JStr ''1.4.2'')]))
   = Inr \<lparr>success = PBool True, error = PStr [],
          timestamp =
            PDatetime \<lparr>year = 2021, month = 2, day = 10, hour = 8, minute = 57,
                       second = 35, microsecond = 0, tzinfo = Some 0\<rparr>,
          version_at_end = PStr ''1.4.2''\<rparr>"
  using parse_example
  by (simp add: read_def json_load_def decode_object_def dict_of_pairs_def dict_get_def
      example_timestamp_def)

text \<open>
  C6: writing that record gives a JSON object in which the version is under the key
  \<^verbatim>\<open>versionAtEnd\<close>, there is no key \<^verbatim>\<open>version_at_end\<close>, and the timestamp is the string
  \<^verbatim>\<open>2021-02-10T085735Z\<close>.
\<close>

theorem write_example:
  "write_result iso8601_to_string example_record = Inr example_document
   \<and> json_member example_document ''versionAtEnd'' = Some (JStr ''1.4.2'')
   \<and> json_member example_document ''version_at_end'' = None
   \<and> json_member example_document ''timestamp'' = Some (JStr ''2021-02-10T085735Z'')"
proof -
  have "write_result iso8601_to_string example_record = Inr example_document"
    using to_string_example
    by (simp add: write_result_dump json_dump_def encode_unsupported_def
        ResultEncoder_default_def example_record_def example_document_def)
  then show ?thesis
    by (simp add: json_member_def example_document_def)
qed

section \<open>Missing fields\<close>

lemma dict_get_absent:
  assumes "list_all2 (\<lambda>m p. fst p = fst m \<and> decode_value hook (snd m) = Inr (snd p)) ms ps"
    and "k \<notin> fst ` set ms"
  shows "dict_get (rev ps) k dflt = dflt"
proof -
  from assms(2) have "map_of (rev ms) k = None"
    by (simp add: map_of_eq_None_iff)
  with decoded_member_None [OF assms(1)] have "map_of (rev ps) k = None" by simp
  then show ?thesis by (simp add: dict_get_def)
qed

text \<open>
  C3: in the record that \<^verbatim>\<open>read\<close> returns for a JSON object, every one of the four fields
  that the object does not have holds its default: \<open>False\<close>, the empty string, the Unix
  epoch 1970-01-01 00:00:00 (as \<^verbatim>\<open>utcfromtimestamp(0)\<close> gives it, without a time zone),
  the empty string. Reading the empty object gives exactly these four values.
\<close>

theorem read_defaults:
  "(read parse (Wellformed (JObj ms)) = Inr r \<longrightarrow>
      (''success'' \<notin> set (json_keys (JObj ms)) \<longrightarrow> success r = PBool False)
    \<and> (''error'' \<notin> set (json_keys (JObj ms)) \<longrightarrow> error r = PStr [])
    \<and> (''timestamp'' \<notin> set (json_keys (JObj ms)) \<longrightarrow>
          timestamp r =
            PDatetime \<lparr>year = 1970, month = 1, day = 1, hour = 0, minute = 0, second = 0,
                       microsecond = 0, tzinfo = None\<rparr>)
    \<and> (''versionAtEnd'' \<notin> set (json_keys (JObj ms)) \<longrightarrow> version_at_end r = PStr []))
   \<and> read parse (Wellformed (JObj [])) =
       Inr \<lparr>success = PBool False, error = PStr [],
            timestamp =
              PDatetime \<lparr>year = 1970, month = 1, day = 1, hour = 0, minute = 0, second = 0,
                         microsecond = 0, tzinfo = None\<rparr>,
            version_at_end = PStr []\<rparr>"
proof -
  have empty: "read parse (Wellformed (JObj [])) =
       Inr \<lparr>success = PBool False, error = PStr [],
            timestamp =
              PDatetime \<lparr>year = 1970, month = 1, day = 1, hour = 0, minute = 0, second = 0,
                         microsecond = 0, tzinfo = None\<rparr>,
            version_at_end = PStr []\<rparr>"
    by (simp add: read_object dict_get_def utcfromtimestamp0_def)
  have fields: "(''success'' \<notin> fst ` set ms \<longrightarrow> success r = PBool False)
      \<and> (''error'' \<notin> fst ` set ms \<longrightarrow> error r = PStr [])
      \<and> (''timestamp'' \<notin> fst ` set ms \<longrightarrow> timestamp r = PDatetime utcfromtimestamp0)
      \<and> (''versionAtEnd'' \<notin> fst ` set ms \<longrightarrow> version_at_end r = PStr [])"
    if rd: "read parse (Wellformed (JObj ms)) = Inr r"
  proof -
    from rd obtain ps where ps: "decode_members (decode_object parse) ms = Inr ps"
      by (auto simp: read_object split: sum.splits)
    note rel = decode_members_Inr [OF ps]
    have ts: "map_of (rev ps) ''timestamp'' = None" if "''timestamp'' \<notin> fst ` set ms"
      using that decoded_member_None [OF rel, of "''timestamp''"]
      by (simp add: map_of_eq_None_iff)
    from rd ps show ?thesis
      by (auto simp: read_object dict_get_absent [OF rel] ts split: option.splits sum.splits)
  qed
  from empty fields show ?thesis
    by (simp add: json_keys_def utcfromtimestamp0_def)
qed

theorem read_defaults_witness:
  "read iso8601_parse (Wellformed (JObj [(''success'', JBool True)]))
     = Inr \<lparr>success = PBool True, error = PStr [], timestamp = PDatetime utcfromtimestamp0,
            version_at_end = PStr []\<rparr>
   \<and> ''error'' \<notin> set (json_keys (JObj [(''success'', JBool True)]))
   \<and> error \<lparr>success = PBool True, error = PStr [], timestamp = PDatetime utcfromtimestamp0,
              version_at_end = PStr []\<rparr> = PStr []"
proof -
  have "read iso8601_parse (Wellformed (JObj [(''success'', JBool True)]))
     = Inr \<lparr>success = PBool True, error = PStr [], timestamp = PDatetime utcfromtimestamp0,
            version_at_end = PStr []\<rparr>"
    by (simp add: read_object dict_get_def)
  with read_defaults [of iso8601_parse "[(''success'', JBool True)]"
      "\<lparr>success = PBool True, error = PStr [], timestamp = PDatetime utcfromtimestamp0,
            version_at_end = PStr []\<rparr>"]
  show ?thesis by (simp add: json_keys_def)
qed

section \<open>When decoding fails\<close>

text \<open>
  The decoder raises exactly on the documents that hold a timestamp which the parser
  rejects, and what it raises is what the parser raised.
\<close>

lemma decoded_member_back:
  assumes rel: "list_all2 (\<lambda>m p. fst p = fst m \<and> decode_value hook (snd m) = Inr (snd p)) ms ps"
    and "map_of (rev ps) k = Some v"
  shows "\<exists>j. map_of (rev ms) k = Some j \<and> decode_value hook j = Inr v"
proof -
  from assms(2) decoded_member_None [OF rel, of k] obtain j where j: "map_of (rev ms) k = Some j"
    by auto
  from decoded_member_Some [OF rel j] assms(2) have "decode_value hook j = Inr v" by auto
  with j show ?thesis by blast
qed

lemma decode_array_fails:
  "j \<in> set js \<Longrightarrow> decode_value hook j = Inl e \<Longrightarrow> \<exists>e'. decode_array hook js = Inl e'"
  by (induction js) (auto split: sum.splits)

lemma decode_members_fails:
  "m \<in> set ms \<Longrightarrow> decode_value hook (snd m) = Inl e \<Longrightarrow> \<exists>e'. decode_members hook ms = Inl e'"
  by (induction ms) (auto split: sum.splits)

lemma decode_object_Inl:
  "decode_object parse d = Inl e \<longleftrightarrow>
     (\<exists>v. map_of d ''timestamp'' = Some v \<and> parse v = Inl e)"
  by (auto simp: decode_object_def split: option.splits sum.splits)

lemma decode_object_Inr:
  "decode_object parse d = Inr v \<Longrightarrow> \<exists>d'. v = PDict d'"
  by (auto simp: decode_object_def split: option.splits sum.splits)

lemma unparsable_if_fails:
  "decode_value (decode_object parse) j = Inl e \<Longrightarrow> unparsable parse j"
proof (induction j arbitrary: e)
  case (JArr js)
  then obtain j where "j \<in> set js" "decode_value (decode_object parse) j = Inl e"
    by (auto split: sum.splits dest: decode_array_Inl)
  with JArr.IH show ?case by (blast intro: unparsable.in_array)
next
  case (JObj ms)
  show ?case
  proof (cases "decode_members (decode_object parse) ms")
    case (Inl e')
    then obtain m where m: "m \<in> set ms" "decode_value (decode_object parse) (snd m) = Inl e'"
      by (blast dest: decode_members_Inl)
    have "snd m \<in> Basic_BNFs.snds m" by (cases m) simp
    with m JObj.IH have "unparsable parse (snd m)" by blast
    with m show ?thesis by (blast intro: unparsable.in_member)
  next
    case (Inr ps)
    with JObj.prems have "decode_object parse (dict_of_pairs ps) = Inl e" by simp
    then obtain v where v: "map_of (rev ps) ''timestamp'' = Some v" "parse v = Inl e"
      by (auto simp: decode_object_Inl map_of_dict_of_pairs)
    from decoded_member_back [OF decode_members_Inr [OF Inr] v(1)] v(2)
    show ?thesis by (blast intro: unparsable.own_timestamp)
  qed
qed simp_all

lemma fails_if_unparsable:
  "unparsable parse j \<Longrightarrow> \<exists>e. decode_value (decode_object parse) j = Inl e"
proof (induction rule: unparsable.induct)
  case (in_array j js)
  then obtain e' where "decode_array (decode_object parse) js = Inl e'"
    by (blast dest: decode_array_fails)
  then show ?case by simp
next
  case (in_member m ms)
  then obtain e' where "decode_members (decode_object parse) ms = Inl e'"
    by (blast dest: decode_members_fails)
  then show ?case by simp
next
  case (own_timestamp ms jt v e)
  show ?case
  proof (cases "decode_members (decode_object parse) ms")
    case (Inl e')
    then show ?thesis by simp
  next
    case (Inr ps)
    from decoded_member_Some [OF decode_members_Inr [OF Inr] own_timestamp(1)] own_timestamp(2)
    have "map_of (rev ps) ''timestamp'' = Some v" by auto
    with own_timestamp(3) have "decode_object parse (dict_of_pairs ps) = Inl e"
      by (simp add: decode_object_Inl map_of_dict_of_pairs)
    with Inr show ?thesis by simp
  qed
qed

lemma decode_fails_iff:
  "(\<exists>e. decode_value (decode_object parse) j = Inl e) \<longleftrightarrow> unparsable parse j"
  by (blast intro: unparsable_if_fails dest: fails_if_unparsable)

lemma decode_error_from_parse:
  "decode_value (decode_object parse) j = Inl e \<Longrightarrow> \<exists>v. parse v = Inl e"
proof (induction j arbitrary: e)
  case (JArr js)
  then obtain j where "j \<in> set js" "decode_value (decode_object parse) j = Inl e"
    by (auto split: sum.splits dest: decode_array_Inl)
  with JArr.IH show ?case by blast
next
  case (JObj ms)
  show ?case
  proof (cases "decode_members (decode_object parse) ms")
    case (Inl e')
    with JObj.prems have "e' = e" by simp
    with Inl obtain m where m: "m \<in> set ms" "decode_value (decode_object parse) (snd m) = Inl e"
      by (blast dest: decode_members_Inl)
    have "snd m \<in> Basic_BNFs.snds m" by (cases m) simp
    with m JObj.IH show ?thesis by blast
  next
    case (Inr ps)
    with JObj.prems have "decode_object parse (dict_of_pairs ps) = Inl e" by simp
    then show ?thesis by (auto simp: decode_object_Inl)
  qed
qed simp_all

lemma decode_is_dict:
  "decode_value (decode_object parse) j = Inr v \<Longrightarrow> is_object j \<longleftrightarrow> (\<exists>d. v = PDict d)"
  by (cases j) (auto simp: is_object_def split: sum.splits dest: decode_object_Inr)

lemma read_wellformed:
  "read parse (Wellformed j) = Inl e \<longleftrightarrow>
     decode_value (decode_object parse) j = Inl e
     \<or> ((\<exists>v. decode_value (decode_object parse) j = Inr v) \<and> \<not> is_object j \<and> e = AttributeError)"
proof (cases "decode_value (decode_object parse) j")
  case (Inl e')
  then show ?thesis by (simp add: read_def json_load_def)
next
  case (Inr v)
  from decode_is_dict [OF Inr] Inr show ?thesis
    by (cases v) (auto simp: read_def json_load_def)
qed

lemma no_timestamp_key_array_iff:
  "no_timestamp_key_array js \<longleftrightarrow> list_all no_timestamp_key js"
  by (induction js) simp_all

lemma no_timestamp_key_members_iff:
  "no_timestamp_key_members ms \<longleftrightarrow>
     list_all (\<lambda>m. fst m \<noteq> ''timestamp'' \<and> no_timestamp_key (snd m)) ms"
  by (induction ms) simp_all

lemma unparsable_has_timestamp_key:
  "unparsable parse j \<Longrightarrow> \<not> no_timestamp_key j"
proof (induction rule: unparsable.induct)
  case (in_array j js)
  then show ?case by (auto simp: no_timestamp_key_array_iff list_all_iff)
next
  case (in_member m ms)
  then show ?case by (auto simp: no_timestamp_key_members_iff list_all_iff)
next
  case (own_timestamp ms jt v e)
  then have "(''timestamp'', jt) \<in> set ms"
    by (auto dest: map_of_SomeD)
  then show ?case by (fastforce simp: no_timestamp_key_members_iff list_all_iff)
qed

lemma read_malformed:
  "read parse (Malformed js) = Inl e \<longleftrightarrow>
     decode_array (decode_object parse) js = Inl e
     \<or> ((\<exists>vs. decode_array (decode_object parse) js = Inr vs) \<and> e = JSONDecodeError)"
  by (auto simp: read_def json_load_def split: sum.splits)

lemma read_total:
  "(\<exists>e. read parse f = Inl e) \<or> (\<exists>r. read parse f = Inr r)"
  by (cases "read parse f") auto

section \<open>When \<open>read\<close> raises\<close>

text \<open>
  The exception of the decoder is the one of the first rejected timestamp: the relation
  \<open>rejects\<close> describes exactly what \<^verbatim>\<open>json.load\<close> raises on a document.
\<close>

lemma decodes_if_parsable:
  "\<not> unparsable parse j \<Longrightarrow> \<exists>v. decode_value (decode_object parse) j = Inr v"
  by (cases "decode_value (decode_object parse) j") (auto dest: unparsable_if_fails)

lemma parsable_if_decodes:
  "decode_value (decode_object parse) j = Inr v \<Longrightarrow> \<not> unparsable parse j"
  by (auto dest: fails_if_unparsable)

lemma decode_array_first_failure:
  assumes "list_all (\<lambda>j'. \<exists>v. decode_value hook j' = Inr v) before"
    and "decode_value hook j = Inl e"
  shows "decode_array hook (before @ j # rest) = Inl e"
  using assms by (induction before) (auto split: sum.splits)

lemma decode_members_first_failure:
  assumes "list_all (\<lambda>m'. \<exists>v. decode_value hook (snd m') = Inr v) before"
    and "decode_value hook (snd m) = Inl e"
  shows "decode_members hook (before @ m # rest) = Inl e"
  using assms by (induction before) (auto split: sum.splits)

lemma decode_array_Inl_split:
  "decode_array hook js = Inl e \<Longrightarrow>
   \<exists>before j rest. js = before @ j # rest
     \<and> list_all (\<lambda>j'. \<exists>v. decode_value hook j' = Inr v) before
     \<and> decode_value hook j = Inl e"
proof (induction js)
  case Nil
  then show ?case by simp
next
  case (Cons a js)
  show ?case
  proof (cases "decode_value hook a")
    case (Inl e')
    with Cons.prems have "e' = e" by simp
    with Inl have "a # js = [] @ a # js \<and> list_all (\<lambda>j'. \<exists>v. decode_value hook j' = Inr v) []
        \<and> decode_value hook a = Inl e" by simp
    then show ?thesis by blast
  next
    case (Inr v)
    with Cons.prems have "decode_array hook js = Inl e" by (simp split: sum.splits)
    from Cons.IH [OF this] obtain before j rest where
      "js = before @ j # rest" "list_all (\<lambda>j'. \<exists>v. decode_value hook j' = Inr v) before"
      "decode_value hook j = Inl e" by blast
    with Inr have "a # js = (a # before) @ j # rest
        \<and> list_all (\<lambda>j'. \<exists>v. decode_value hook j' = Inr v) (a # before)
        \<and> decode_value hook j = Inl e" by simp
    then show ?thesis by blast
  qed
qed

lemma decode_members_Inl_split:
  "decode_members hook ms = Inl e \<Longrightarrow>
   \<exists>before m rest. ms = before @ m # rest
     \<and> list_all (\<lambda>m'. \<exists>v. decode_value hook (snd m') = Inr v) before
     \<and> decode_value hook (snd m) = Inl e"
proof (induction ms)
  case Nil
  then show ?case by simp
next
  case (Cons a ms)
  show ?case
  proof (cases "decode_value hook (snd a)")
    case (Inl e')
    with Cons.prems have "e' = e" by simp
    with Inl have "a # ms = [] @ a # ms
        \<and> list_all (\<lambda>m'. \<exists>v. decode_value hook (snd m') = Inr v) []
        \<and> decode_value hook (snd a) = Inl e" by simp
    then show ?thesis by blast
  next
    case (Inr v)
    with Cons.prems have "decode_members hook ms = Inl e" by (simp split: sum.splits)
    from Cons.IH [OF this] obtain before m rest where
      "ms = before @ m # rest"
      "list_all (\<lambda>m'. \<exists>v. decode_value hook (snd m') = Inr v) before"
      "decode_value hook (snd m) = Inl e" by blast
    with Inr have "a # ms = (a # before) @ m # rest
        \<and> list_all (\<lambda>m'. \<exists>v. decode_value hook (snd m') = Inr v) (a # before)
        \<and> decode_value hook (snd m) = Inl e" by simp
    then show ?thesis by blast
  qed
qed

lemma decode_members_Inr_all:
  "decode_members hook ms = Inr ps \<Longrightarrow>
   list_all (\<lambda>m. \<exists>v. decode_value hook (snd m) = Inr v) ms"
  by (induction ms arbitrary: ps) (auto split: sum.splits)

lemma raises_if_rejects:
  "rejects parse j e \<Longrightarrow> decode_value (decode_object parse) j = Inl e"
proof (induction rule: rejects.induct)
  case (element js before j rest e)
  from element(2) have "list_all (\<lambda>j'. \<exists>v. decode_value (decode_object parse) j' = Inr v) before"
    by (auto simp: list_all_iff dest: decodes_if_parsable)
  from decode_array_first_failure [OF this element(4)] element(1) show ?case by simp
next
  case (member ms before m rest e)
  from member(2)
  have "list_all (\<lambda>m'. \<exists>v. decode_value (decode_object parse) (snd m') = Inr v) before"
    by (auto simp: list_all_iff dest: decodes_if_parsable)
  from decode_members_first_failure [OF this member(4)] member(1) show ?case by simp
next
  case (timestamp_of_object ms jt v e)
  from timestamp_of_object(1)
  have "list_all (\<lambda>m. \<exists>v. decode_value (decode_object parse) (snd m) = Inr v) ms"
    by (auto simp: list_all_iff dest: decodes_if_parsable)
  then obtain ps where ps: "decode_members (decode_object parse) ms = Inr ps"
    by (blast dest: decode_members_total)
  from decoded_member_Some [OF decode_members_Inr [OF ps] timestamp_of_object(2)]
    timestamp_of_object(3)
  have "map_of (rev ps) ''timestamp'' = Some v" by auto
  with timestamp_of_object(4) have "decode_object parse (dict_of_pairs ps) = Inl e"
    by (simp add: decode_object_Inl map_of_dict_of_pairs)
  with ps show ?case by simp
qed

lemma rejects_if_raises:
  "decode_value (decode_object parse) j = Inl e \<Longrightarrow> rejects parse j e"
proof (induction j arbitrary: e)
  case (JArr js)
  then have "decode_array (decode_object parse) js = Inl e" by (simp split: sum.splits)
  from decode_array_Inl_split [OF this] obtain before j rest where
    s: "js = before @ j # rest"
    and b: "list_all (\<lambda>j'. \<exists>v. decode_value (decode_object parse) j' = Inr v) before"
    and f: "decode_value (decode_object parse) j = Inl e" by blast
  from s have "j \<in> set js" by simp
  with JArr.IH f have "rejects parse j e" by blast
  moreover from b have "list_all (\<lambda>j'. \<not> unparsable parse j') before"
    by (auto simp: list_all_iff dest: parsable_if_decodes)
  ultimately show ?case using s by (blast intro: rejects.element)
next
  case (JObj ms)
  show ?case
  proof (cases "decode_members (decode_object parse) ms")
    case (Inl e')
    with JObj.prems have "decode_members (decode_object parse) ms = Inl e" by simp
    from decode_members_Inl_split [OF this] obtain before m rest where
      s: "ms = before @ m # rest"
      and b: "list_all (\<lambda>m'. \<exists>v. decode_value (decode_object parse) (snd m') = Inr v) before"
      and f: "decode_value (decode_object parse) (snd m) = Inl e" by blast
    from s have "m \<in> set ms" by simp
    moreover have "snd m \<in> Basic_BNFs.snds m" by (cases m) simp
    ultimately have "rejects parse (snd m) e" using JObj.IH f by blast
    moreover from b have "list_all (\<lambda>m'. \<not> unparsable parse (snd m')) before"
      by (auto simp: list_all_iff dest: parsable_if_decodes)
    ultimately show ?thesis using s by (blast intro: rejects.member)
  next
    case (Inr ps)
    with JObj.prems have "decode_object parse (dict_of_pairs ps) = Inl e" by simp
    then obtain v where v: "map_of (rev ps) ''timestamp'' = Some v" "parse v = Inl e"
      by (auto simp: decode_object_Inl map_of_dict_of_pairs)
    from decoded_member_back [OF decode_members_Inr [OF Inr] v(1)] obtain jt where
      jt: "map_of (rev ms) ''timestamp'' = Some jt"
        "decode_value (decode_object parse) jt = Inr v" by blast
    from decode_members_Inr_all [OF Inr]
    have "list_all (\<lambda>m. \<not> unparsable parse (snd m)) ms"
      by (auto simp: list_all_iff dest: parsable_if_decodes)
    with jt v(2) show ?thesis by (blast intro: rejects.timestamp_of_object)
  qed
qed simp_all

lemma raises_iff_rejects:
  "decode_value (decode_object parse) j = Inl e \<longleftrightarrow> rejects parse j e"
  by (blast intro: rejects_if_raises raises_if_rejects)


lemma rejects_from_parse: "rejects parse j e \<Longrightarrow> \<exists>v. parse v = Inl e"
  by (blast dest: raises_if_rejects decode_error_from_parse)

lemma unparsable_iff_rejects: "unparsable parse j \<longleftrightarrow> (\<exists>e. rejects parse j e)"
  by (blast intro: rejects_if_raises dest: raises_if_rejects fails_if_unparsable
      unparsable_if_fails)

lemma read_wellformed_raises:
  "read parse (Wellformed j) = Inl e \<longleftrightarrow>
     rejects parse j e \<or> (\<not> unparsable parse j \<and> \<not> is_object j \<and> e = AttributeError)"
proof -
  have "(\<exists>v. decode_value (decode_object parse) j = Inr v) \<longleftrightarrow> \<not> unparsable parse j"
    by (blast dest: decodes_if_parsable parsable_if_decodes)
  then show ?thesis
    by (simp add: read_wellformed raises_iff_rejects del: decode_value.simps)
qed

lemma read_malformed_raises:
  "read parse (Malformed js) = Inl e \<longleftrightarrow>
     rejects parse (JArr js) e \<or> (\<not> unparsable parse (JArr js) \<and> e = JSONDecodeError)"
proof -
  have a: "decode_array (decode_object parse) js = Inl e \<longleftrightarrow> rejects parse (JArr js) e" for e
    unfolding raises_iff_rejects [symmetric] by (simp split: sum.splits)
  have "(\<exists>vs. decode_array (decode_object parse) js = Inr vs)
        \<longleftrightarrow> (\<exists>v. decode_value (decode_object parse) (JArr js) = Inr v)"
    by (simp split: sum.splits)
  also have "\<dots> \<longleftrightarrow> \<not> unparsable parse (JArr js)"
    by (blast dest: decodes_if_parsable parsable_if_decodes)
  finally show ?thesis
    by (simp add: read_malformed a)
qed

lemma read_rejected_timestamp:
  assumes "json_member (JObj ms) ''timestamp'' = Some (JStr s)" "parse (PStr s) = Inl e"
    "list_all (\<lambda>m. no_timestamp_key (snd m)) ms"
  shows "read parse (Wellformed (JObj ms)) = Inl e"
proof -
  from assms(3) have "list_all (\<lambda>m. \<not> unparsable parse (snd m)) ms"
    by (auto simp: list_all_iff dest: unparsable_has_timestamp_key)
  moreover from assms(1) have "map_of (rev ms) ''timestamp'' = Some (JStr s)"
    by (simp add: json_member_def)
  moreover have "decode_value (decode_object parse) (JStr s) = Inr (PStr s)" by simp
  ultimately have "rejects parse (JObj ms) e"
    using assms(2) by (rule rejects.timestamp_of_object)
  then show ?thesis by (simp add: read_wellformed_raises)
qed

text \<open>
  C4, as the code has it: \<^verbatim>\<open>read\<close> raises exactly when the text is not JSON, or the document
  holds a timestamp that the parser rejects (in an object at any depth), or the document
  is not a JSON object, so that the decoded value has no method \<^verbatim>\<open>get\<close>. What it raises is
  determined: the exception that the parser returned for the first rejected timestamp,
  unchanged, if there is one; otherwise \<^verbatim>\<open>AttributeError\<close> for a document that is not an
  object and \<^verbatim>\<open>JSONDecodeError\<close> for a text that is not JSON (whose complete values are
  \<open>js\<close>). In particular an object whose \<^verbatim>\<open>timestamp\<close> is a string that the parser rejects
  with \<open>e\<close> makes \<^verbatim>\<open>read\<close> raise \<open>e\<close>. A JSON object without any key \<^verbatim>\<open>timestamp\<close> is
  always read, whichever of the other fields it lacks.
\<close>

theorem read_raises:
  "((\<exists>e. read parse f = Inl e) \<longleftrightarrow>
      (case f of
         Malformed js \<Rightarrow> True
       | Wellformed j \<Rightarrow> unparsable parse j \<or> \<not> is_object j))
   \<and> (read parse (Wellformed j) = Inl e \<longleftrightarrow>
        rejects parse j e
        \<or> (\<not> unparsable parse j \<and> \<not> is_object j \<and> e = AttributeError))
   \<and> (read parse (Malformed js) = Inl e \<longleftrightarrow>
        rejects parse (JArr js) e
        \<or> (\<not> unparsable parse (JArr js) \<and> e = JSONDecodeError))
   \<and> (unparsable parse j \<longleftrightarrow> (\<exists>e'. rejects parse j e'))
   \<and> (rejects parse j e \<longrightarrow> (\<exists>v. parse v = Inl e))
   \<and> (json_member (JObj ms) ''timestamp'' = Some (JStr s) \<and> parse (PStr s) = Inl e
       \<and> list_all (\<lambda>m. no_timestamp_key (snd m)) ms \<longrightarrow>
        read parse (Wellformed (JObj ms)) = Inl e)
   \<and> (no_timestamp_key (JObj ms') \<longrightarrow> (\<exists>r. read parse (Wellformed (JObj ms')) = Inr r))"
proof (intro conjI)
  show "(\<exists>e. read parse f = Inl e) \<longleftrightarrow>
      (case f of
         Malformed js \<Rightarrow> True
       | Wellformed j \<Rightarrow> unparsable parse j \<or> \<not> is_object j)"
  proof (cases f)
    case (Malformed js')
    have "\<exists>e. read parse (Malformed js') = Inl e"
      by (cases "decode_array (decode_object parse) js'") (auto simp: read_malformed)
    with Malformed show ?thesis by simp
  next
    case (Wellformed j')
    have "(\<exists>e. read parse (Wellformed j') = Inl e) \<longleftrightarrow> unparsable parse j' \<or> \<not> is_object j'"
      unfolding read_wellformed_raises unparsable_iff_rejects by blast
    with Wellformed show ?thesis by simp
  qed
next
  show "read parse (Wellformed j) = Inl e \<longleftrightarrow>
        rejects parse j e
        \<or> (\<not> unparsable parse j \<and> \<not> is_object j \<and> e = AttributeError)"
    by (rule read_wellformed_raises)
next
  show "read parse (Malformed js) = Inl e \<longleftrightarrow>
        rejects parse (JArr js) e
        \<or> (\<not> unparsable parse (JArr js) \<and> e = JSONDecodeError)"
    by (rule read_malformed_raises)
next
  show "unparsable parse j \<longleftrightarrow> (\<exists>e'. rejects parse j e')"
    by (rule unparsable_iff_rejects)
next
  show "rejects parse j e \<longrightarrow> (\<exists>v. parse v = Inl e)"
    by (blast dest: rejects_from_parse)
next
  show "json_member (JObj ms) ''timestamp'' = Some (JStr s) \<and> parse (PStr s) = Inl e
       \<and> list_all (\<lambda>m. no_timestamp_key (snd m)) ms \<longrightarrow>
        read parse (Wellformed (JObj ms)) = Inl e"
    by (blast intro: read_rejected_timestamp)
next
  show "no_timestamp_key (JObj ms') \<longrightarrow> (\<exists>r. read parse (Wellformed (JObj ms')) = Inr r)"
  proof
    assume "no_timestamp_key (JObj ms')"
    then have "\<not> unparsable parse (JObj ms')" by (blast dest: unparsable_has_timestamp_key)
    then have "read parse (Wellformed (JObj ms')) \<noteq> Inl x" for x
      by (simp add: read_wellformed_raises unparsable_iff_rejects is_object_def)
    with read_total [of parse "Wellformed (JObj ms')"]
    show "\<exists>r. read parse (Wellformed (JObj ms')) = Inr r" by blast
  qed
qed

lemma parse_yesterday: "iso8601_parse (PStr ''yesterday'') = Inl ValueError"
  by (simp add: iso8601_parse_def timestamp_eval)

theorem read_raises_witness:
  "read iso8601_parse (Wellformed (JObj [(''timestamp'', JStr ''yesterday'')])) = Inl ValueError
   \<and> rejects iso8601_parse (JObj [(''timestamp'', JStr ''yesterday'')]) ValueError
   \<and> unparsable iso8601_parse (JObj [(''timestamp'', JStr ''yesterday'')])
   \<and> \<not> unparsable iso8601_parse (JArr [])
   \<and> read iso8601_parse (Wellformed (JArr [])) = Inl AttributeError
   \<and> read iso8601_parse (Malformed []) = Inl JSONDecodeError
   \<and> no_timestamp_key (JObj [(''success'', JBool True)])
   \<and> (\<exists>r. read iso8601_parse (Wellformed (JObj [(''success'', JBool True)])) = Inr r)"
proof -
  note a = read_raises [where parse = iso8601_parse
      and f = "Wellformed (JObj [(''timestamp'', JStr ''yesterday'')])"
      and j = "JObj [(''timestamp'', JStr ''yesterday'')]" and e = ValueError
      and js = "[]" and ms = "[(''timestamp'', JStr ''yesterday'')]" and s = "''yesterday''"
      and ms' = "[(''success'', JBool True)]"]
  note b = read_raises [where parse = iso8601_parse and f = "Wellformed (JArr [])"
      and j = "JArr []" and e = AttributeError and js = "[]" and ms = "[]" and s = "[]"
      and ms' = "[]"]
  note c = read_raises [where parse = iso8601_parse and f = "Malformed []"
      and j = "JArr []" and e = JSONDecodeError and js = "[]" and ms = "[]" and s = "[]"
      and ms' = "[]"]
  have "decode_value (decode_object iso8601_parse) (JArr []) = Inr (PList [])" by simp
  then have u: "\<not> unparsable iso8601_parse (JArr [])" by (rule parsable_if_decodes)
  have rd: "read iso8601_parse (Wellformed (JObj [(''timestamp'', JStr ''yesterday'')]))
      = Inl ValueError"
    using a parse_yesterday by (simp add: json_member_def)
  with a have rj: "rejects iso8601_parse (JObj [(''timestamp'', JStr ''yesterday'')]) ValueError"
    by simp
  with a have un: "unparsable iso8601_parse (JObj [(''timestamp'', JStr ''yesterday'')])"
    by blast
  from b u have ae: "read iso8601_parse (Wellformed (JArr [])) = Inl AttributeError"
    by (simp add: is_object_def)
  from c u have je: "read iso8601_parse (Malformed []) = Inl JSONDecodeError"
    by simp
  from a have ok: "\<exists>r. read iso8601_parse (Wellformed (JObj [(''success'', JBool True)])) = Inr r"
    by simp
  from rd rj un u ae je ok show ?thesis by simp
qed

text \<open>
  The claim as stated, that \<^verbatim>\<open>read\<close> raises only on a text that is not JSON or on a
  timestamp that cannot be parsed, fails on the document \<^verbatim>\<open>[]\<close>: it is JSON and holds no
  timestamp, and \<^verbatim>\<open>read\<close> raises \<^verbatim>\<open>AttributeError\<close>.
\<close>

theorem read_raises_counterexample:
  "read iso8601_parse (Wellformed (JArr [])) = Inl AttributeError
   \<and> \<not> unparsable iso8601_parse (JArr [])"
proof -
  have "decode_value (decode_object iso8601_parse) (JArr []) = Inr (PList [])" by simp
  then have "\<not> unparsable iso8601_parse (JArr [])" by (auto dest: fails_if_unparsable)
  then show ?thesis by (simp add: read_def json_load_def)
qed

section \<open>The document that \<open>write\<close> produces\<close>

lemma well_typed_fields:
  assumes "well_typed r"
  obtains b e t v where "success r = PBool b" "error r = PStr e" "timestamp r = PDatetime t"
    "version_at_end r = PStr v"
  using assms
  by (auto simp: well_typed_def is_bool_def is_str_def is_datetime_def split: pyval.splits)

lemma write_result_typed:
  assumes "success r = PBool b" "error r = PStr e" "timestamp r = PDatetime t"
    "version_at_end r = PStr v"
  shows "write_result ts r =
     Inr (JObj [(''success'', JBool b), (''error'', JStr e), (''timestamp'', JStr (ts t)),
                (''versionAtEnd'', JStr v)])"
  by (simp add: write_result_dump json_dump_def encode_unsupported_def
      ResultEncoder_default_def assms)

lemma write_result_keys:
  assumes "write_result ts r = Inr j"
  shows "json_keys j = [''success'', ''error'', ''timestamp'', ''versionAtEnd'']"
  using assms
  by (auto simp: write_result_dump json_dump_def json_keys_def split: sum.splits)

text \<open>
  C7: whenever \<^verbatim>\<open>write\<close> produces a document, it is a JSON object whose keys are exactly
  \<^verbatim>\<open>success\<close>, \<^verbatim>\<open>error\<close>, \<^verbatim>\<open>timestamp\<close> and \<^verbatim>\<open>versionAtEnd\<close>, so there is no key
  \<^verbatim>\<open>version_at_end\<close>; for a record that has the types of its annotations it does produce
  one, and \<^verbatim>\<open>versionAtEnd\<close> holds the record's \<^verbatim>\<open>version_at_end\<close>.
\<close>

theorem write_keys:
  "(write_result ts r = Inr j \<longrightarrow>
      json_keys j = [''success'', ''error'', ''timestamp'', ''versionAtEnd'']
      \<and> ''version_at_end'' \<notin> set (json_keys j))
   \<and> (well_typed r \<longrightarrow>
        (\<exists>j' v. write_result ts r = Inr j' \<and> version_at_end r = PStr v
           \<and> json_member j' ''versionAtEnd'' = Some (JStr v)))"
proof (intro conjI impI)
  assume "write_result ts r = Inr j"
  then have keys: "json_keys j = [''success'', ''error'', ''timestamp'', ''versionAtEnd'']"
    by (rule write_result_keys)
  then show "json_keys j = [''success'', ''error'', ''timestamp'', ''versionAtEnd'']" .
  from keys show "''version_at_end'' \<notin> set (json_keys j)" by simp
next
  assume "well_typed r"
  then obtain b e t v where f: "success r = PBool b" "error r = PStr e"
      "timestamp r = PDatetime t" "version_at_end r = PStr v"
    by (rule well_typed_fields)
  from write_result_typed [OF f, of ts] f(4)
  show "\<exists>j' v. write_result ts r = Inr j' \<and> version_at_end r = PStr v
           \<and> json_member j' ''versionAtEnd'' = Some (JStr v)"
    by (simp add: json_member_def)
qed

theorem write_keys_witness:
  "write_result iso8601_to_string example_record = Inr example_document
   \<and> well_typed example_record
   \<and> json_keys example_document = [''success'', ''error'', ''timestamp'', ''versionAtEnd'']
   \<and> (\<exists>j' v. write_result iso8601_to_string example_record = Inr j'
         \<and> version_at_end example_record = PStr v
         \<and> json_member j' ''versionAtEnd'' = Some (JStr v))"
proof -
  have w: "write_result iso8601_to_string example_record = Inr example_document"
    using to_string_example
    by (simp add: write_result_dump json_dump_def encode_unsupported_def
        ResultEncoder_default_def example_record_def example_document_def)
  have t: "well_typed example_record"
    by (simp add: well_typed_def is_bool_def is_str_def is_datetime_def example_record_def)
  from w t write_keys [of iso8601_to_string example_record example_document]
  show ?thesis by simp
qed

section \<open>A successful result with an error message\<close>

lemma read_member:
  assumes rd: "read parse (Wellformed (JObj ms)) = Inr r"
    and "k \<noteq> ''timestamp''"
    and "json_member (JObj ms) k = Some j"
  shows "\<exists>v. decode_value (decode_object parse) j = Inr v
      \<and> (k = ''success'' \<longrightarrow> success r = v) \<and> (k = ''error'' \<longrightarrow> error r = v)
      \<and> (k = ''versionAtEnd'' \<longrightarrow> version_at_end r = v)"
proof -
  from rd obtain ps where ps: "decode_members (decode_object parse) ms = Inr ps"
    by (auto simp: read_object split: sum.splits)
  from assms(3) have "map_of (rev ms) k = Some j" by (simp add: json_member_def)
  from decoded_member_Some [OF decode_members_Inr [OF ps] this]
  obtain v where v: "decode_value (decode_object parse) j = Inr v" "map_of (rev ps) k = Some v"
    by blast
  from rd ps v(2) have "(k = ''success'' \<longrightarrow> success r = v) \<and> (k = ''error'' \<longrightarrow> error r = v)
      \<and> (k = ''versionAtEnd'' \<longrightarrow> version_at_end r = v)"
    by (auto simp: read_object dict_get_def split: option.splits sum.splits)
  with v(1) show ?thesis by blast
qed

text \<open>
  C8: neither direction checks that a successful result has an empty error message. A
  record with \<open>success = True\<close> and a non-empty error is written without an exception,
  with both values in the document; a JSON object with \<^verbatim>\<open>"success": true\<close> and a non-empty
  \<^verbatim>\<open>"error"\<close> is read (unless a timestamp in it cannot be parsed) into a record with
  exactly these two values.
\<close>

theorem success_with_error:
  "(well_typed r \<and> success r = PBool True \<and> error r = PStr e \<and> e \<noteq> [] \<longrightarrow>
      (\<exists>j. write_result ts r = Inr j \<and> json_member j ''success'' = Some (JBool True)
         \<and> json_member j ''error'' = Some (JStr e)))
   \<and> (json_member (JObj ms) ''success'' = Some (JBool True)
       \<and> json_member (JObj ms) ''error'' = Some (JStr e) \<and> e \<noteq> []
       \<and> \<not> unparsable parse (JObj ms) \<longrightarrow>
      (\<exists>r'. read parse (Wellformed (JObj ms)) = Inr r' \<and> success r' = PBool True
         \<and> error r' = PStr e))"
proof (intro conjI impI)
  assume a: "well_typed r \<and> success r = PBool True \<and> error r = PStr e \<and> e \<noteq> []"
  then obtain b e' t v where f: "success r = PBool b" "error r = PStr e'"
      "timestamp r = PDatetime t" "version_at_end r = PStr v"
    by (blast elim: well_typed_fields)
  from write_result_typed [OF f, of ts] f a
  show "\<exists>j. write_result ts r = Inr j \<and> json_member j ''success'' = Some (JBool True)
         \<and> json_member j ''error'' = Some (JStr e)"
    by (simp add: json_member_def)
next
  assume a: "json_member (JObj ms) ''success'' = Some (JBool True)
       \<and> json_member (JObj ms) ''error'' = Some (JStr e) \<and> e \<noteq> []
       \<and> \<not> unparsable parse (JObj ms)"
  then have nofail: "decode_value (decode_object parse) (JObj ms) \<noteq> Inl x" for x
    by (blast dest: unparsable_if_fails)
  have "read parse (Wellformed (JObj ms)) \<noteq> Inl x" for x
    unfolding read_wellformed using nofail [of x]
    by (simp add: is_object_def del: decode_value.simps)
  with read_total [of parse "Wellformed (JObj ms)"]
  obtain r' where rd: "read parse (Wellformed (JObj ms)) = Inr r'" by blast
  from read_member [OF rd _ conjunct1 [OF a]] have "success r' = PBool True" by simp
  moreover from read_member [OF rd _ conjunct1 [OF conjunct2 [OF a]]] have "error r' = PStr e"
    by simp
  ultimately show "\<exists>r'. read parse (Wellformed (JObj ms)) = Inr r' \<and> success r' = PBool True
         \<and> error r' = PStr e"
    using rd by blast
qed


theorem success_with_error_witness:
  "well_typed (example_record\<lparr>error := PStr ''disk full''\<rparr>)
   \<and> (\<exists>j. write_result iso8601_to_string (example_record\<lparr>error := PStr ''disk full''\<rparr>) = Inr j
         \<and> json_member j ''success'' = Some (JBool True)
         \<and> json_member j ''error'' = Some (JStr ''disk full''))
   \<and> \<not> unparsable iso8601_parse
         (JObj [(''success'', JBool True), (''error'', JStr ''disk full'')])
   \<and> (\<exists>r'. read iso8601_parse
               (Wellformed (JObj [(''success'', JBool True), (''error'', JStr ''disk full'')]))
              = Inr r'
         \<and> success r' = PBool True \<and> error r' = PStr ''disk full'')"
proof -
  have t: "well_typed (example_record\<lparr>error := PStr ''disk full''\<rparr>)"
    by (simp add: well_typed_def is_bool_def is_str_def is_datetime_def example_record_def)
  have "decode_value (decode_object iso8601_parse)
          (JObj [(''success'', JBool True), (''error'', JStr ''disk full'')])
        = Inr (PDict [(''success'', PBool True), (''error'', PStr ''disk full'')])"
    by (simp add: decode_object_def dict_of_pairs_def)
  then have u: "\<not> unparsable iso8601_parse
         (JObj [(''success'', JBool True), (''error'', JStr ''disk full'')])"
    by (auto dest: fails_if_unparsable)
  from t u success_with_error [of "example_record\<lparr>error := PStr ''disk full''\<rparr>" "''disk full''"
      iso8601_to_string "[(''success'', JBool True), (''error'', JStr ''disk full'')]"
      iso8601_parse]
  show ?thesis
    by (simp add: json_member_def example_record_def)
qed

section \<open>\<open>write\<close> and the record it is given\<close>

lemma update_dict_last:
  "update_dict (length st) f (st @ [DictObject d]) =
     (case f d of Inl e \<Rightarrow> Inl e | Inr d' \<Rightarrow> Inr (st @ [DictObject d']))"
  by (simp add: update_dict_def split: sum.splits)

lemma write_store_eq:
  assumes "a < length st" "st ! a = ResultObject r"
  shows "write_store ts a st =
     (write_result ts r,
      st @ [DictObject [(''success'', success r), (''error'', error r),
                        (''timestamp'', timestamp r), (''versionAtEnd'', version_at_end r)]])"
  using assms
  by (simp add: write_store_def update_dict_last asdict_def dict_getitem_def dict_delitem_def
      write_result_dump Let_def)

text \<open>
  C10: \<^verbatim>\<open>write\<close> leaves its argument unchanged. After the call the record behind the
  reference is the record that was there before, as is every other object that existed;
  the assignment and the deletion act on the dictionary that \<^verbatim>\<open>asdict\<close> has allocated.
  What is written is what the function \<open>write_result\<close> of the record computes.
\<close>

theorem write_leaves_record:
  "a < length st \<and> st ! a = ResultObject r \<longrightarrow>
     snd (write_store ts a st) ! a = ResultObject r
     \<and> take (length st) (snd (write_store ts a st)) = st
     \<and> fst (write_store ts a st) = write_result ts r"
proof
  assume a: "a < length st \<and> st ! a = ResultObject r"
  then have "write_store ts a st =
     (write_result ts r,
      st @ [DictObject [(''success'', success r), (''error'', error r),
                        (''timestamp'', timestamp r), (''versionAtEnd'', version_at_end r)]])"
    by (simp add: write_store_eq)
  with a show "snd (write_store ts a st) ! a = ResultObject r
     \<and> take (length st) (snd (write_store ts a st)) = st
     \<and> fst (write_store ts a st) = write_result ts r"
    by (simp add: nth_append)
qed

theorem write_leaves_record_witness:
  "(1::nat) < length [DictObject [], ResultObject example_record]
   \<and> [DictObject [], ResultObject example_record] ! 1 = ResultObject example_record
   \<and> snd (write_store iso8601_to_string 1 [DictObject [], ResultObject example_record]) ! 1
       = ResultObject example_record
   \<and> fst (write_store iso8601_to_string 1 [DictObject [], ResultObject example_record])
       = write_result iso8601_to_string example_record"
  using write_leaves_record [of 1 "[DictObject [], ResultObject example_record]" example_record
      iso8601_to_string]
  by simp

section \<open>Unknown fields\<close>

lemma decode_no_timestamp_key:
  assumes "no_timestamp_key j"
  shows "\<exists>v. decode_value (decode_object parse) j = Inr v"
proof (cases "decode_value (decode_object parse) j")
  case (Inl e)
  then have "unparsable parse j" by (rule unparsable_if_fails)
  with assms show ?thesis by (blast dest: unparsable_has_timestamp_key)
next
  case (Inr v)
  then show ?thesis by blast
qed

lemma decode_members_filter:
  assumes "list_all (\<lambda>m. P (fst m) \<or> (\<exists>v. decode_value hook (snd m) = Inr v)) ms"
  shows "decode_members hook (filter (\<lambda>m. P (fst m)) ms) =
     (case decode_members hook ms of
        Inl e \<Rightarrow> Inl e
      | Inr ps \<Rightarrow> Inr (filter (\<lambda>p. P (fst p)) ps))"
  using assms
  by (induction ms) (auto split: sum.splits)

lemma map_of_filter_key:
  "P k \<Longrightarrow> map_of (filter (\<lambda>p. P (fst p)) ps) k = map_of ps k"
  by (induction ps) auto

lemma map_of_rev_filter_key:
  "P k \<Longrightarrow> map_of (rev (filter (\<lambda>p. P (fst p)) ps)) k = map_of (rev ps) k"
  by (simp add: rev_filter map_of_filter_key)

lemma dict_get_rev_filter_key:
  "P k \<Longrightarrow> dict_get (rev (filter (\<lambda>p. P (fst p)) ps)) k d = dict_get (rev ps) k d"
  by (simp add: dict_get_def map_of_rev_filter_key)

text \<open>
  C9: \<^verbatim>\<open>read\<close> ignores unknown fields. Taking away every member of a JSON object whose key
  is not one of \<^verbatim>\<open>success\<close>, \<^verbatim>\<open>error\<close>, \<^verbatim>\<open>timestamp\<close>, \<^verbatim>\<open>versionAtEnd\<close> changes nothing in
  what \<^verbatim>\<open>read\<close> returns or raises, provided the values of these members hold no object
  with a key \<^verbatim>\<open>timestamp\<close> of its own (which would make the hook call the parser).
\<close>

theorem read_ignores_unknown:
  "list_all (\<lambda>m. fst m \<in> set known_keys \<or> no_timestamp_key (snd m)) ms \<longrightarrow>
     read parse (Wellformed (JObj ms))
       = read parse (Wellformed (JObj (filter (\<lambda>m. fst m \<in> set known_keys) ms)))"
proof
  assume a: "list_all (\<lambda>m. fst m \<in> set known_keys \<or> no_timestamp_key (snd m)) ms"
  have "list_all (\<lambda>m. fst m \<in> set known_keys
                    \<or> (\<exists>v. decode_value (decode_object parse) (snd m) = Inr v)) ms"
    using a by (auto simp: list_all_iff dest: decode_no_timestamp_key)
  note flt = decode_members_filter [where P = "\<lambda>k. k \<in> set known_keys", OF this]
  have k: "''success'' \<in> set known_keys" "''error'' \<in> set known_keys"
    "''timestamp'' \<in> set known_keys" "''versionAtEnd'' \<in> set known_keys"
    by (simp_all add: known_keys_def)
  note look = k [THEN map_of_rev_filter_key [where P = "\<lambda>k. k \<in> set known_keys"]]
    k [THEN dict_get_rev_filter_key [where P = "\<lambda>k. k \<in> set known_keys"]]
  show "read parse (Wellformed (JObj ms))
       = read parse (Wellformed (JObj (filter (\<lambda>m. fst m \<in> set known_keys) ms)))"
    by (simp add: read_object flt look split: sum.splits option.splits)
qed

theorem read_ignores_unknown_witness:
  "list_all (\<lambda>m. fst m \<in> set known_keys \<or> no_timestamp_key (snd m))
     [(''comment'', JArr [JStr ''ok'', JObj [(''by'', JStr ''me'')]]), (''success'', JBool True),
      (''timestamp'', JStr ''2021-02-10T085735Z''), (''size'', JInt 3)]
   \<and> read iso8601_parse
       (Wellformed
          (JObj [(''comment'', JArr [JStr ''ok'', JObj [(''by'', JStr ''me'')]]),
                 (''success'', JBool True), (''timestamp'', JStr ''2021-02-10T085735Z''),
                 (''size'', JInt 3)]))
     = read iso8601_parse
         (Wellformed
            (JObj [(''success'', JBool True), (''timestamp'', JStr ''2021-02-10T085735Z'')]))"
  using read_ignores_unknown [of
      "[(''comment'', JArr [JStr ''ok'', JObj [(''by'', JStr ''me'')]]), (''success'', JBool True),
        (''timestamp'', JStr ''2021-02-10T085735Z''), (''size'', JInt 3)]" iso8601_parse]
  by (simp add: known_keys_def)

section \<open>The timestamp format is a bijection on whole seconds in UTC\<close>

lemma below_ten: "n < 10 \<Longrightarrow> n \<in> {0, 1, 2, 3, 4, 5, 6, 7, 8, 9::nat}"
  by auto

lemma digit_char_is_digit: "n < 10 \<Longrightarrow> is_digit (digit_char n)"
  by (drule below_ten) (auto simp: is_digit_def digit_char_def)

lemma digit_val_digit_char: "n < 10 \<Longrightarrow> digit_val (digit_char n) = n"
  by (drule below_ten) (auto simp: digit_val_def digit_char_def)

lemma digit_val_less: "is_digit c \<Longrightarrow> digit_val c < 10"
  by (auto simp: is_digit_def digit_val_def)

lemma digit_char_digit_val: "is_digit c \<Longrightarrow> digit_char (digit_val c) = c"
  by (auto simp: is_digit_def digit_val_def digit_char_def)

lemma number_snoc: "number (ds @ [c]) = 10 * number ds + digit_val c"
  by (simp add: number_def)

lemma length_zero_padded: "length (zero_padded w n) = w"
  by (induction w arbitrary: n) simp_all

lemma digits_zero_padded: "list_all is_digit (zero_padded w n)"
  by (induction w arbitrary: n) (simp_all add: digit_char_is_digit)

lemma number_zero_padded: "number (zero_padded w n) = n mod 10 ^ w"
proof (induction w arbitrary: n)
  case 0
  show ?case by (simp add: number_def)
next
  case (Suc w)
  have "number (zero_padded (Suc w) n) = 10 * (n div 10 mod 10 ^ w) + n mod 10"
    by (simp add: number_snoc Suc.IH digit_val_digit_char)
  also have "\<dots> = n mod 10 ^ Suc w"
    by (simp add: mod_mult2_eq)
  finally show ?case .
qed

lemma take_number_zero_padded:
  "n < 10 ^ w \<Longrightarrow> take_number w (zero_padded w n @ rest) = Some (n, rest)"
  by (simp add: take_number_def length_zero_padded digits_zero_padded number_zero_padded)

lemma zero_padded_number:
  "list_all is_digit ds \<Longrightarrow> zero_padded (length ds) (number ds) = ds"
proof (induction ds rule: rev_induct)
  case Nil
  show ?case by simp
next
  case (snoc c ds)
  then have c: "is_digit c" and ds: "zero_padded (length ds) (number ds) = ds" by simp_all
  from digit_val_less [OF c] have "(10 * number ds + digit_val c) div 10 = number ds"
    "(10 * number ds + digit_val c) mod 10 = digit_val c" by simp_all
  with ds digit_char_digit_val [OF c] show ?case by (simp add: number_snoc)
qed

lemma take_number_Some:
  assumes "take_number w s = Some (n, rest)"
  shows "s = zero_padded w n @ rest"
proof -
  from assms have w: "w \<le> length s" and d: "list_all is_digit (take w s)"
    and n: "n = number (take w s)" and r: "rest = drop w s"
    by (auto simp: take_number_def split: if_splits)
  from w have "length (take w s) = w" by simp
  with zero_padded_number [OF d] n have "zero_padded w n = take w s" by simp
  with r show ?thesis by simp
qed

lemma take_char_Some: "take_char c s = Some rest \<longleftrightarrow> s = c # rest"
  by (auto simp: take_char_def split: list.splits)

lemma days_in_month_le: "days_in_month y m \<le> 31"
  by (simp add: days_in_month_def)

lemma fields_to_string:
  assumes "valid_datetime t" "microsecond t = 0" "tzinfo t = Some 0"
  shows "iso8601_fields (iso8601_to_string t) = Some t"
proof -
  from assms(1) have b: "year t < 10 ^ 4" "month t < 10 ^ 2" "day t < 10 ^ 2" "hour t < 10 ^ 2"
      "minute t < 10 ^ 2" "second t < 10 ^ 2"
    using days_in_month_le [of "year t" "month t"]
    by (simp_all add: valid_datetime_def)
  have "iso8601_fields (iso8601_to_string t) =
      Some \<lparr>year = year t, month = month t, day = day t, hour = hour t, minute = minute t,
            second = second t, microsecond = 0, tzinfo = Some 0\<rparr>"
    unfolding iso8601_fields_def iso8601_to_string_def
    by (simp add: take_number_zero_padded [OF b(1)] take_number_zero_padded [OF b(2)]
        take_number_zero_padded [OF b(3)] take_number_zero_padded [OF b(4)]
        take_number_zero_padded [OF b(5)] take_number_zero_padded [OF b(6)] take_char_def)
  with assms(2,3) show ?thesis by simp
qed

lemma parse_to_string:
  assumes "valid_datetime t" "microsecond t = 0" "tzinfo t = Some 0"
  shows "iso8601_parse (PStr (iso8601_to_string t)) = Inr t"
  using assms by (simp add: iso8601_parse_def fields_to_string)

lemma to_string_fields:
  assumes "iso8601_fields s = Some t"
  shows "iso8601_to_string t = s"
  using assms
  unfolding iso8601_fields_def iso8601_to_string_def
  by (auto simp: Option.bind_eq_Some_conv take_char_Some split: if_splits
      dest!: take_number_Some)

lemma to_string_parse:
  assumes "iso8601_parse (PStr s) = Inr t"
  shows "iso8601_to_string t = s"
  using assms
  by (auto simp: iso8601_parse_def to_string_fields split: option.splits if_splits)

lemma parse_result:
  assumes "iso8601_parse v = Inr t"
  shows "valid_datetime t \<and> microsecond t = 0 \<and> tzinfo t = Some 0"
  using assms
  by (auto simp: iso8601_parse_def iso8601_fields_def Option.bind_eq_Some_conv
      split: pyval.splits option.splits if_splits)

section \<open>Round trips\<close>

lemma read_timestamp_member:
  assumes rd: "read parse (Wellformed (JObj ms)) = Inr r"
    and "json_member (JObj ms) ''timestamp'' = Some j"
  shows "\<exists>v t. decode_value (decode_object parse) j = Inr v \<and> parse v = Inr t
           \<and> timestamp r = PDatetime t"
proof -
  from rd obtain ps where ps: "decode_members (decode_object parse) ms = Inr ps"
    by (auto simp: read_object split: sum.splits)
  from assms(2) have "map_of (rev ms) ''timestamp'' = Some j" by (simp add: json_member_def)
  from decoded_member_Some [OF decode_members_Inr [OF ps] this]
  obtain v where v: "decode_value (decode_object parse) j = Inr v"
      "map_of (rev ps) ''timestamp'' = Some v"
    by blast
  from rd ps v(2) obtain t where "parse v = Inr t" "timestamp r = PDatetime t"
    by (auto simp: read_object split: sum.splits)
  with v(1) show ?thesis by blast
qed

lemma read_accepts:
  assumes "\<not> unparsable parse (JObj ms)"
  shows "\<exists>r. read parse (Wellformed (JObj ms)) = Inr r"
proof -
  from assms have nofail: "decode_value (decode_object parse) (JObj ms) \<noteq> Inl x" for x
    by (blast dest: unparsable_if_fails)
  have "read parse (Wellformed (JObj ms)) \<noteq> Inl x" for x
    unfolding read_wellformed using nofail [of x]
    by (simp add: is_object_def del: decode_value.simps)
  with read_total [of parse "Wellformed (JObj ms)"] show ?thesis by blast
qed

text \<open>
  C1, as the code has it: a record with the types of its annotations whose timestamp is a
  datetime in UTC without a fraction of a second comes back from \<^verbatim>\<open>write\<close> followed by
  \<^verbatim>\<open>read\<close> with all four fields as they were.
\<close>

theorem write_then_read_whole_seconds:
  "well_typed r \<and> timestamp r = PDatetime t \<and> valid_datetime t \<and> microsecond t = 0
   \<and> tzinfo t = Some 0 \<longrightarrow>
     write_then_read iso8601_parse iso8601_to_string r = Inr r"
proof
  assume a: "well_typed r \<and> timestamp r = PDatetime t \<and> valid_datetime t \<and> microsecond t = 0
   \<and> tzinfo t = Some 0"
  then obtain b e t' v where f: "success r = PBool b" "error r = PStr e"
      "timestamp r = PDatetime t'" "version_at_end r = PStr v"
    by (blast elim: well_typed_fields)
  with a have t': "t' = t" by simp
  from a have p: "iso8601_parse (PStr (iso8601_to_string t)) = Inr t"
    by (simp add: parse_to_string)
  have "write_then_read iso8601_parse iso8601_to_string r =
      Inr \<lparr>success = PBool b, error = PStr e, timestamp = PDatetime t,
           version_at_end = PStr v\<rparr>"
    using p
    by (simp add: write_then_read_def write_result_typed [OF f] t' read_object dict_get_def)
  also have "\<lparr>success = PBool b, error = PStr e, timestamp = PDatetime t,
           version_at_end = PStr v\<rparr> = r"
    using f t' by simp
  finally show "write_then_read iso8601_parse iso8601_to_string r = Inr r" .
qed

theorem write_then_read_whole_seconds_witness:
  "well_typed example_record \<and> timestamp example_record = PDatetime example_timestamp
   \<and> valid_datetime example_timestamp \<and> microsecond example_timestamp = 0
   \<and> tzinfo example_timestamp = Some 0
   \<and> write_then_read iso8601_parse iso8601_to_string example_record = Inr example_record"
proof -
  have "well_typed example_record"
    by (simp add: well_typed_def is_bool_def is_str_def is_datetime_def example_record_def)
  moreover have "valid_datetime example_timestamp"
    by (simp add: timestamp_eval example_timestamp_def)
  moreover have "timestamp example_record = PDatetime example_timestamp"
    by (simp add: example_record_def)
  moreover have "microsecond example_timestamp = 0" "tzinfo example_timestamp = Some 0"
    by (simp_all add: example_timestamp_def)
  ultimately show ?thesis
    using write_then_read_whole_seconds [of example_record example_timestamp] by simp
qed

text \<open>
  The claim as stated, for every record, fails on a timestamp with microseconds: the
  format has whole seconds, so 2021-02-10 08:57:35.250000 is written as
  \<^verbatim>\<open>2021-02-10T085735Z\<close> and read back as 08:57:35.
\<close>

lemma to_string_subsecond:
  "iso8601_to_string (example_timestamp\<lparr>microsecond := 250000\<rparr>) = ''2021-02-10T085735Z''"
  using to_string_example by (simp add: iso8601_to_string_def)

theorem write_then_read_counterexample:
  "well_typed subsecond_record
   \<and> write_then_read iso8601_parse iso8601_to_string subsecond_record = Inr example_record
   \<and> timestamp example_record \<noteq> timestamp subsecond_record
   \<and> write_then_read iso8601_parse iso8601_to_string subsecond_record \<noteq> Inr subsecond_record"
proof -
  have t: "well_typed subsecond_record"
    by (simp add: well_typed_def is_bool_def is_str_def is_datetime_def subsecond_record_def)
  have w: "write_result iso8601_to_string subsecond_record = Inr example_document"
    using to_string_subsecond
    by (simp add: write_result_dump json_dump_def encode_unsupported_def
        ResultEncoder_default_def subsecond_record_def example_document_def)
  have r: "read iso8601_parse (Wellformed example_document) = Inr example_record"
    using parse_example
    by (simp add: read_object dict_get_def example_document_def example_record_def)
  have d: "timestamp example_record \<noteq> timestamp subsecond_record"
    by (simp add: example_record_def subsecond_record_def example_timestamp_def)
  then have "example_record \<noteq> subsecond_record" by auto
  with t w r d show ?thesis by (simp add: write_then_read_def)
qed

text \<open>
  A naive timestamp does not come back either: the record that \<^verbatim>\<open>read\<close> makes of the empty
  object holds \<^verbatim>\<open>utcfromtimestamp(0)\<close>, which is written as \<^verbatim>\<open>1970-01-01T000000Z\<close> and
  read back as a datetime in UTC.
\<close>

lemma naive_timestamp_comes_back_aware:
  "write_then_read iso8601_parse iso8601_to_string
     \<lparr>success = PBool False, error = PStr [], timestamp = PDatetime utcfromtimestamp0,
      version_at_end = PStr []\<rparr>
   = Inr \<lparr>success = PBool False, error = PStr [],
          timestamp = PDatetime (utcfromtimestamp0\<lparr>tzinfo := Some 0\<rparr>),
          version_at_end = PStr []\<rparr>"
proof -
  have s: "iso8601_to_string utcfromtimestamp0 = ''1970-01-01T000000Z''"
    by (simp add: iso8601_to_string_def utcfromtimestamp0_def digit_char_def
        zero_padded_numeral zero_padded_Suc0)
  have "iso8601_fields ''1970-01-01T000000Z'' = Some (utcfromtimestamp0\<lparr>tzinfo := Some 0\<rparr>)"
    by (simp add: timestamp_eval utcfromtimestamp0_def)
  moreover have "valid_datetime (utcfromtimestamp0\<lparr>tzinfo := Some 0\<rparr>)"
    by (simp add: timestamp_eval utcfromtimestamp0_def)
  ultimately have p: "iso8601_parse (PStr ''1970-01-01T000000Z'')
      = Inr (utcfromtimestamp0\<lparr>tzinfo := Some 0\<rparr>)"
    by (simp add: iso8601_parse_def)
  show ?thesis
    using s p
    by (simp add: write_then_read_def write_result_dump json_dump_def encode_unsupported_def
        ResultEncoder_default_def read_object dict_get_def)
qed

text \<open>
  C2: a JSON object that \<^verbatim>\<open>read\<close> accepts and that has the four fields, a boolean
  \<^verbatim>\<open>success\<close> and strings for \<^verbatim>\<open>error\<close>, \<^verbatim>\<open>timestamp\<close> and \<^verbatim>\<open>versionAtEnd\<close>, is turned by
  \<^verbatim>\<open>read\<close> followed by \<^verbatim>\<open>write\<close> into the object of exactly these four members with the
  same values; the timestamp is a string of the format, since the parser has accepted it.
\<close>

theorem read_then_write_same_fields:
  "json_member (JObj ms) ''success'' = Some (JBool b)
   \<and> json_member (JObj ms) ''error'' = Some (JStr e)
   \<and> json_member (JObj ms) ''timestamp'' = Some (JStr s)
   \<and> json_member (JObj ms) ''versionAtEnd'' = Some (JStr v)
   \<and> \<not> unparsable iso8601_parse (JObj ms) \<longrightarrow>
     read_then_write iso8601_parse iso8601_to_string (Wellformed (JObj ms))
       = Inr (JObj [(''success'', JBool b), (''error'', JStr e), (''timestamp'', JStr s),
                    (''versionAtEnd'', JStr v)])"
proof
  assume a: "json_member (JObj ms) ''success'' = Some (JBool b)
   \<and> json_member (JObj ms) ''error'' = Some (JStr e)
   \<and> json_member (JObj ms) ''timestamp'' = Some (JStr s)
   \<and> json_member (JObj ms) ''versionAtEnd'' = Some (JStr v)
   \<and> \<not> unparsable iso8601_parse (JObj ms)"
  then obtain r where rd: "read iso8601_parse (Wellformed (JObj ms)) = Inr r"
    by (blast dest: read_accepts)
  from a have m: "json_member (JObj ms) ''success'' = Some (JBool b)"
    "json_member (JObj ms) ''error'' = Some (JStr e)"
    "json_member (JObj ms) ''timestamp'' = Some (JStr s)"
    "json_member (JObj ms) ''versionAtEnd'' = Some (JStr v)" by simp_all
  from read_member [OF rd _ m(1)] have f1: "success r = PBool b" by simp
  from read_member [OF rd _ m(2)] have f2: "error r = PStr e" by simp
  from read_member [OF rd _ m(4)] have f4: "version_at_end r = PStr v" by simp
  from read_timestamp_member [OF rd m(3)] obtain t
    where t: "iso8601_parse (PStr s) = Inr t" "timestamp r = PDatetime t"
    by auto
  from write_result_typed [OF f1 f2 t(2) f4, of iso8601_to_string] to_string_parse [OF t(1)] rd
  show "read_then_write iso8601_parse iso8601_to_string (Wellformed (JObj ms))
       = Inr (JObj [(''success'', JBool b), (''error'', JStr e), (''timestamp'', JStr s),
                    (''versionAtEnd'', JStr v)])"
    by (simp add: read_then_write_def)
qed

theorem read_then_write_same_fields_witness:
  "json_member example_document ''timestamp'' = Some (JStr ''2021-02-10T085735Z'')
   \<and> \<not> unparsable iso8601_parse example_document
   \<and> read_then_write iso8601_parse iso8601_to_string (Wellformed example_document)
       = Inr example_document"
proof -
  have "read iso8601_parse (Wellformed example_document) = Inr example_record"
    using parse_example
    by (simp add: read_object dict_get_def example_document_def example_record_def)
  then have "decode_value (decode_object iso8601_parse) example_document \<noteq> Inl x" for x
    by (auto simp: read_def json_load_def split: sum.splits)
  then have u: "\<not> unparsable iso8601_parse example_document"
    by (auto dest: fails_if_unparsable)
  from u read_then_write_same_fields [of
      "[(''success'', JBool True), (''error'', JStr []),
        (''timestamp'', JStr ''2021-02-10T085735Z''), (''versionAtEnd'', JStr ''1.4.2'')]"
      True "[]" "''2021-02-10T085735Z''" "''1.4.2''"]
  show ?thesis
    by (simp add: json_member_def example_document_def)
qed

end
